theory Spec2Isabelle
  imports Main "HOL-Library.Sublist"
begin

section \<open>prepare\_data.py: data model\<close>

text \<open>
  The script reads a reference table and raw ECG recordings from fixed absolute paths,
  assigns every record to one of four test folds, rebuilds the output tree under the
  relative directory \<open>folds\<close> and writes one pair of \<open>.npy\<close> files per record and fold.

  Everything the script calls from a library (pandas, scipy, wfdb, scikit-learn, the
  repository's \<open>utils\<close> module, \<open>os.path\<close> on the input paths) is a field of the
  environment record below; every exception is a value of \<open>error\<close>.
\<close>

datatype error =
    KeyError string
  | FileNotFoundError string
  | NotADirectoryError
  | IsADirectoryError
  | FileExistsError
  | IndexError
  | TypeError
  | ValueError

datatype dtype = UInt8 | Int16 | Int32 | Int64 | Float32 | Float64

text \<open>
  A numpy array: its shape, its element type and its elements in row-major order.
  The element values are kept abstract (type \<open>'a\<close>).
\<close>

record 'a ndarray =
  shape :: "nat list"
  dtype :: dtype
  items :: "'a list"

definition ndim :: "'a ndarray \<Rightarrow> nat" where
  "ndim a = length (shape a)"

text \<open>\<^verbatim>\<open>a.squeeze()\<close>: every axis of length one is removed, the elements stay.\<close>

definition squeeze :: "'a ndarray \<Rightarrow> 'a ndarray" where
  "squeeze a = a\<lparr>shape := filter (\<lambda>d. d \<noteq> 1) (shape a)\<rparr>"

text \<open>
  \<^verbatim>\<open>signal[:,0]\<close>: the first entry along the second axis. Fewer than two axes, or
  a second axis of length zero, raise IndexError.
\<close>

definition first_channel :: "'a ndarray \<Rightarrow> error + 'a ndarray" where
  "first_channel a =
     (case shape a of
        n # c # rest \<Rightarrow>
          if c = 0 then Inl IndexError
          else Inr \<lparr>shape = n # rest, dtype = dtype a,
                    items = concat (map (\<lambda>i. take (prod_list rest)
                                             (drop (i * c * prod_list rest) (items a)))
                                        [0..<n])\<rparr>
      | _ \<Rightarrow> Inl IndexError)"

text \<open>The library functions the script calls, and the files it reads.\<close>

record 'a env =
  read_csv :: "string \<Rightarrow> error + (string \<times> string) list"
  os_path_join :: "string \<Rightarrow> string \<Rightarrow> string"
  os_path_exists :: "string \<Rightarrow> bool"
  loadmat :: "string \<Rightarrow> error + (string \<rightharpoonup> 'a ndarray)"
  rdsamp :: "string \<Rightarrow> error + 'a ndarray"
  float32_of :: "'a \<Rightarrow> 'a"
  kfold_split :: "nat \<Rightarrow> nat \<Rightarrow> nat \<Rightarrow> error + (nat list \<times> nat list) list"
  signal_processing :: "'a ndarray \<Rightarrow> error + 'a ndarray"
  normalization_processing :: "'a ndarray \<Rightarrow> error + 'a ndarray"

text \<open>\<^verbatim>\<open>a.astype(np.float32)\<close>: same shape, every element converted.\<close>

definition astype_float32 :: "'a env \<Rightarrow> 'a ndarray \<Rightarrow> 'a ndarray" where
  "astype_float32 env a = a\<lparr>dtype := Float32, items := map (float32_of env) (items a)\<rparr>"

subsection \<open>Configuration\<close>

definition bs :: string where
  "bs = [CHR 0x5C]"

definition training2017 :: string where
  "training2017 = concat [''C:'', bs, ''Users'', bs, ''Notebook'', bs, ''Downloads'', bs,
                          ''training2017 (2)'', bs, ''training2017'', bs]"

definition REF_CSV :: string where
  "REF_CSV = training2017 @ ''REFERENCE-v3.csv''"

definition HEA_DIR :: string where
  "HEA_DIR = training2017 @ ''hea_files''"

definition MAT_DIR :: string where
  "MAT_DIR = training2017 @ ''mat_files''"

definition FOLDS_DIR :: string where
  "FOLDS_DIR = ''folds''"

definition N_FOLDS :: nat where
  "N_FOLDS = 4"

definition SEED :: nat where
  "SEED = 42"

definition LABEL_MAP :: "(string \<times> int) list" where
  "LABEL_MAP = [(''N'', 0), (''A'', 1), (''O'', 2)]"

subsection \<open>load\_ecg\<close>

definition load_ecg :: "'a env \<Rightarrow> string \<Rightarrow> error + 'a ndarray" where
  "load_ecg env rec =
     (let mat_path = os_path_join env MAT_DIR (rec @ ''.mat'');
          wfdb_path = os_path_join env HEA_DIR rec;
          dat_path = wfdb_path @ ''.dat''
      in if os_path_exists env mat_path then
           (case loadmat env mat_path of
              Inl e \<Rightarrow> Inl e
            | Inr m \<Rightarrow>
                (case m ''val'' of
                   Some v \<Rightarrow> Inr (astype_float32 env (squeeze v))
                 | None \<Rightarrow>
                     (case m ''ecg'' of
                        Some v \<Rightarrow> Inr (astype_float32 env (squeeze v))
                      | None \<Rightarrow> Inl (KeyError (''No ECG variable found in '' @ mat_path)))))
         else if os_path_exists env dat_path then
           (case rdsamp env wfdb_path of
              Inl e \<Rightarrow> Inl e
            | Inr signal \<Rightarrow>
                (case first_channel signal of
                   Inl e \<Rightarrow> Inl e
                 | Inr ecg \<Rightarrow> Inr (astype_float32 env ecg)))
         else Inl (FileNotFoundError
                     (''Neither '' @ mat_path @ '' nor '' @ dat_path
                        @ '' found for record '' @ rec)))"

subsection \<open>The reference table\<close>

text \<open>
  A row of the data frame \<open>ref\<close>: the columns \<open>record\<close>, \<open>label\<close> and, once
  added, \<open>int_label\<close>. \<open>Series.map\<close> leaves NaN where the dictionary has no key:
  that is \<open>None\<close>.
\<close>

record ref_row =
  record_name :: string
  label :: string
  int_label :: "int option"

text \<open>\<^verbatim>\<open>ref[ref.label.isin(LABEL_MAP)]\<close>: the rows whose label is a key of the dictionary.\<close>

definition isin_LABEL_MAP :: "(string \<times> string) list \<Rightarrow> (string \<times> string) list" where
  "isin_LABEL_MAP rows = filter (\<lambda>(r, l). l \<in> set (map fst LABEL_MAP)) rows"

text \<open>\<^verbatim>\<open>ref['int_label'] = ref.label.map(LABEL_MAP)\<close>\<close>

definition add_int_label :: "(string \<times> string) list \<Rightarrow> ref_row list" where
  "add_int_label rows =
     map (\<lambda>(r, l). \<lparr>record_name = r, label = l, int_label = map_of LABEL_MAP l\<rparr>) rows"

definition load_ref :: "'a env \<Rightarrow> error + ref_row list" where
  "load_ref env =
     (case read_csv env REF_CSV of
        Inl e \<Rightarrow> Inl e
      | Inr rows \<Rightarrow> Inr (add_int_label (isin_LABEL_MAP rows)))"

text \<open>
  \<^verbatim>\<open>int(ref.loc[ref.record == rec, 'int_label'])\<close>: the selection is a Series; \<open>int\<close>
  converts a Series of exactly one element and raises TypeError on any other length.
  A NaN cannot be converted (ValueError).
\<close>

definition lookup_label :: "ref_row list \<Rightarrow> string \<Rightarrow> error + int" where
  "lookup_label ref rec =
     (case filter (\<lambda>row. record_name row = rec) ref of
        [row] \<Rightarrow> (case int_label row of Some l \<Rightarrow> Inr l | None \<Rightarrow> Inl ValueError)
      | _ \<Rightarrow> Inl TypeError)"

text \<open>\<^verbatim>\<open>{0:"normal",1:"AF",2:"other"}[lbl]\<close>\<close>

definition class_names :: "(int \<times> string) list" where
  "class_names = [(0, ''normal''), (1, ''AF''), (2, ''other'')]"

definition class_dir :: "int \<Rightarrow> error + string" where
  "class_dir lbl =
     (case map_of class_names lbl of
        Some cls \<Rightarrow> Inr cls
      | None \<Rightarrow> Inl (KeyError ''lbl''))"

subsection \<open>Decimal rendering of an index\<close>

text \<open>\<^verbatim>\<open>str(j)\<close> and \<^verbatim>\<open>f"{i}"\<close> on a non-negative integer.\<close>

definition digit_char :: "nat \<Rightarrow> char" where
  "digit_char d = ''0123456789'' ! d"

function str_nat :: "nat \<Rightarrow> string" where
  "str_nat n = (if n < 10 then [digit_char n] else str_nat (n div 10) @ [digit_char (n mod 10)])"
  by pat_completeness auto
termination
  by (relation "measure id") auto

declare str_nat.simps [simp del]

subsection \<open>Fold assignment (steps 2 and 3 of main)\<close>

text \<open>
  \<^verbatim>\<open>recs[test_idx]\<close>: indexing an array by an array of indices; an index out of
  range raises IndexError.
\<close>

definition take_indices :: "'b list \<Rightarrow> nat list \<Rightarrow> error + 'b list" where
  "take_indices xs idx =
     (if list_all (\<lambda>j. j < length xs) idx then Inr (map (nth xs) idx) else Inl IndexError)"

text \<open>\<^verbatim>\<open>for r in recs[test_idx]: fold_map[r] = i\<close>\<close>

fun assign_fold :: "(string \<rightharpoonup> nat) \<Rightarrow> nat \<Rightarrow> string list \<Rightarrow> (string \<rightharpoonup> nat)" where
  "assign_fold fold_map i [] = fold_map"
| "assign_fold fold_map i (r # rs) = assign_fold (fold_map(r \<mapsto> i)) i rs"

text \<open>\<^verbatim>\<open>for i, (_, test_idx) in enumerate(kf.split(recs)): ...\<close>\<close>

fun assign_splits ::
  "string list \<Rightarrow> (string \<rightharpoonup> nat) \<Rightarrow> nat \<Rightarrow> (nat list \<times> nat list) list \<Rightarrow> error + (string \<rightharpoonup> nat)"
where
  "assign_splits recs fold_map i [] = Inr fold_map"
| "assign_splits recs fold_map i ((train_idx, test_idx) # rest) =
     (case take_indices recs test_idx of
        Inl e \<Rightarrow> Inl e
      | Inr rs \<Rightarrow> assign_splits recs (assign_fold fold_map i rs) (Suc i) rest)"

text \<open>
  \<^verbatim>\<open>KFold(n_splits=N_FOLDS, shuffle=True, random_state=SEED).split(recs)\<close>: the
  splitter sees the number of samples only.
\<close>

definition fold_assignment :: "'a env \<Rightarrow> string list \<Rightarrow> error + (string \<rightharpoonup> nat)" where
  "fold_assignment env recs =
     (case kfold_split env N_FOLDS SEED (length recs) of
        Inl e \<Rightarrow> Inl e
      | Inr splits \<Rightarrow> assign_splits recs Map.empty 0 splits)"

text \<open>\<^verbatim>\<open>{i: [] for i in range(N_FOLDS)}\<close>\<close>

definition empty_folds :: "nat \<rightharpoonup> string list" where
  "empty_folds = map_of (map (\<lambda>i. (i, [])) [0..<N_FOLDS])"

text \<open>\<^verbatim>\<open>for r in recs: fi = fold_map[r]; fold_records[fi].append(r)\<close>\<close>

fun build_fold_records ::
  "(string \<rightharpoonup> nat) \<Rightarrow> (nat \<rightharpoonup> string list) \<Rightarrow> string list \<Rightarrow> error + (nat \<rightharpoonup> string list)"
where
  "build_fold_records fold_map fold_records [] = Inr fold_records"
| "build_fold_records fold_map fold_records (r # rs) =
     (case fold_map r of
        None \<Rightarrow> Inl (KeyError r)
      | Some fi \<Rightarrow>
          (case fold_records fi of
             None \<Rightarrow> Inl (KeyError (str_nat fi))
           | Some l \<Rightarrow> build_fold_records fold_map (fold_records(fi \<mapsto> l @ [r])) rs))"

text \<open>\<^verbatim>\<open>[r for r in recs if fold_map[r] != i]\<close>\<close>

fun records_not_in :: "(string \<rightharpoonup> nat) \<Rightarrow> nat \<Rightarrow> string list \<Rightarrow> error + string list" where
  "records_not_in fold_map i [] = Inr []"
| "records_not_in fold_map i (r # rs) =
     (case fold_map r of
        None \<Rightarrow> Inl (KeyError r)
      | Some fi \<Rightarrow>
          (case records_not_in fold_map i rs of
             Inl e \<Rightarrow> Inl e
           | Inr l \<Rightarrow> Inr (if fi \<noteq> i then r # l else l)))"

text \<open>\<^verbatim>\<open>for i in range(N_FOLDS): combined_records[i] = [...]\<close>\<close>

fun build_combined_records ::
  "(string \<rightharpoonup> nat) \<Rightarrow> string list \<Rightarrow> (nat \<rightharpoonup> string list) \<Rightarrow> nat list \<Rightarrow> error + (nat \<rightharpoonup> string list)"
where
  "build_combined_records fold_map recs combined_records [] = Inr combined_records"
| "build_combined_records fold_map recs combined_records (i # is) =
     (case records_not_in fold_map i recs of
        Inl e \<Rightarrow> Inl e
      | Inr l \<Rightarrow> build_combined_records fold_map recs (combined_records(i \<mapsto> l)) is)"

text \<open>Steps 2 and 3 together: the fold map, the test lists and the train lists.\<close>

definition fold_lists ::
  "'a env \<Rightarrow> string list \<Rightarrow>
     error + ((string \<rightharpoonup> nat) \<times> (nat \<rightharpoonup> string list) \<times> (nat \<rightharpoonup> string list))"
where
  "fold_lists env recs =
     (case fold_assignment env recs of
        Inl e \<Rightarrow> Inl e
      | Inr fold_map \<Rightarrow>
          (case build_fold_records fold_map empty_folds recs of
             Inl e \<Rightarrow> Inl e
           | Inr fold_records \<Rightarrow>
               (case build_combined_records fold_map recs empty_folds [0..<N_FOLDS] of
                  Inl e \<Rightarrow> Inl e
                | Inr combined_records \<Rightarrow> Inr (fold_map, fold_records, combined_records))))"

subsection \<open>The output tree\<close>

text \<open>
  The output side of the file system, relative to the working directory: a path is its
  list of components, a node is a directory or a file holding what \<open>np.save\<close> wrote.
  The input files live under absolute paths none of whose components is \<open>folds\<close>, so
  writing the output tree does not change what the environment's readers return.
\<close>

datatype 'a npy = NpyArray "'a ndarray" | NpyInt int

datatype 'a node = Dir | File "'a npy"

type_synonym path = "string list"

type_synonym 'a fs = "path \<rightharpoonup> 'a node"

text \<open>\<^verbatim>\<open>shutil.rmtree(d)\<close>\<close>

definition rmtree :: "path \<Rightarrow> 'a fs \<Rightarrow> error + 'a fs" where
  "rmtree d fs =
     (case fs d of
        None \<Rightarrow> Inl (FileNotFoundError (concat d))
      | Some (File _) \<Rightarrow> Inl NotADirectoryError
      | Some Dir \<Rightarrow> Inr (\<lambda>p. if prefix d p then None else fs p))"

text \<open>Step 0: \<^verbatim>\<open>if os.path.exists(FOLDS_DIR): shutil.rmtree(FOLDS_DIR)\<close>\<close>

definition remove_old :: "'a fs \<Rightarrow> error + 'a fs" where
  "remove_old fs = (if fs [FOLDS_DIR] \<noteq> None then rmtree [FOLDS_DIR] fs else Inr fs)"

text \<open>\<^verbatim>\<open>os.mkdir(p)\<close>; the working directory (the empty path) always exists.\<close>

definition mkdir :: "path \<Rightarrow> 'a fs \<Rightarrow> error + 'a fs" where
  "mkdir p fs =
     (if fs p \<noteq> None then Inl FileExistsError
      else if butlast p = [] \<or> fs (butlast p) = Some Dir then Inr (fs(p \<mapsto> Dir))
      else if fs (butlast p) = None then Inl (FileNotFoundError (concat p))
      else Inl NotADirectoryError)"

text \<open>
  \<^verbatim>\<open>os.makedirs(p, exist_ok=True)\<close>, on the reversed path: a missing parent is
  created first; then \<open>mkdir\<close>, whose failure is ignored when the path is a directory.
\<close>

fun makedirs_rev :: "string list \<Rightarrow> 'a fs \<Rightarrow> error + 'a fs" where
  "makedirs_rev [] fs = Inr fs"
| "makedirs_rev (tail # head) fs =
     (case (if head \<noteq> [] \<and> fs (rev head) = None then makedirs_rev head fs else Inr fs) of
        Inl e \<Rightarrow> Inl e
      | Inr fs1 \<Rightarrow>
          (case mkdir (rev (tail # head)) fs1 of
             Inr fs2 \<Rightarrow> Inr fs2
           | Inl e \<Rightarrow> if fs1 (rev (tail # head)) = Some Dir then Inr fs1 else Inl e))"

definition makedirs :: "path \<Rightarrow> 'a fs \<Rightarrow> error + 'a fs" where
  "makedirs p fs = makedirs_rev (rev p) fs"

fun makedirs_each :: "path list \<Rightarrow> 'a fs \<Rightarrow> error + 'a fs" where
  "makedirs_each [] fs = Inr fs"
| "makedirs_each (p # ps) fs =
     (case makedirs p fs of
        Inl e \<Rightarrow> Inl e
      | Inr fs1 \<Rightarrow> makedirs_each ps fs1)"

text \<open>\<^verbatim>\<open>f"fold{i}"\<close> and \<^verbatim>\<open>"fold" + "".join(str(j) for j in range(N_FOLDS) if j!=i)\<close>\<close>

definition single_name :: "nat \<Rightarrow> string" where
  "single_name i = ''fold'' @ str_nat i"

definition combined_name :: "nat \<Rightarrow> string" where
  "combined_name i = ''fold'' @ concat (map str_nat (filter (\<lambda>j. j \<noteq> i) [0..<N_FOLDS]))"

definition singles :: "string list" where
  "singles = map single_name [0..<N_FOLDS]"

definition combined :: "string list" where
  "combined = map combined_name [0..<N_FOLDS]"

text \<open>The tuples \<^verbatim>\<open>("data","label")\<close> and \<^verbatim>\<open>("AF","normal","other")\<close>.\<close>

definition sub_dirs :: "string list" where
  "sub_dirs = [''data'', ''label'']"

definition class_subdirs :: "string list" where
  "class_subdirs = [''AF'', ''normal'', ''other'']"

text \<open>The paths of the first and of the second loop nest of \<open>make_dirs\<close>, in order.\<close>

definition fold_dirs :: "path list" where
  "fold_dirs =
     concat (map (\<lambda>fd. map (\<lambda>sub. [FOLDS_DIR, fd, sub]) sub_dirs) (singles @ combined))"

definition class_dirs :: "path list" where
  "class_dirs =
     concat (map (\<lambda>fd. concat (map (\<lambda>cls. map (\<lambda>sub. [FOLDS_DIR, fd, cls, sub]) sub_dirs)
                                    class_subdirs))
                 singles)"

definition make_dirs :: "'a fs \<Rightarrow> error + 'a fs" where
  "make_dirs fs =
     (case makedirs_each fold_dirs fs of
        Inl e \<Rightarrow> Inl e
      | Inr fs1 \<Rightarrow> makedirs_each class_dirs fs1)"

subsection \<open>Processing and writing (step 5 of main)\<close>

text \<open>\<^verbatim>\<open>np.save(p, v)\<close>: the directory of \<open>p\<close> must exist; an old file is replaced.\<close>

definition np_save :: "path \<Rightarrow> 'a npy \<Rightarrow> 'a fs \<Rightarrow> error + 'a fs" where
  "np_save p v fs =
     (if fs p = Some Dir then Inl IsADirectoryError
      else if butlast p = [] \<or> fs (butlast p) = Some Dir then Inr (fs(p \<mapsto> File v))
      else if fs (butlast p) = None then Inl (FileNotFoundError (concat p))
      else Inl NotADirectoryError)"

text \<open>
  \<^verbatim>\<open>raw = load_ecg(rec); proc = normalization_processing(signal_processing(raw))\<close>
\<close>

definition load_and_process :: "'a env \<Rightarrow> string \<Rightarrow> error + 'a ndarray" where
  "load_and_process env rec =
     (case load_ecg env rec of
        Inl e \<Rightarrow> Inl e
      | Inr raw \<Rightarrow>
          (case signal_processing env raw of
             Inl e \<Rightarrow> Inl e
           | Inr filtered \<Rightarrow> normalization_processing env filtered))"

text \<open>The body of the test-fold loop, for the record \<open>rec\<close> at position \<open>idx\<close>.\<close>

definition save_test_record ::
  "'a env \<Rightarrow> ref_row list \<Rightarrow> string \<Rightarrow> nat \<Rightarrow> string \<Rightarrow> 'a fs \<Rightarrow> error + 'a fs"
where
  "save_test_record env ref sf idx rec fs =
     (case load_and_process env rec of
        Inl e \<Rightarrow> Inl e
      | Inr proc \<Rightarrow>
     (case lookup_label ref rec of
        Inl e \<Rightarrow> Inl e
      | Inr lbl \<Rightarrow>
     (let out = str_nat idx @ ''.npy'' in
     (case np_save [FOLDS_DIR, sf, ''data'', out] (NpyArray proc) fs of
        Inl e \<Rightarrow> Inl e
      | Inr fs1 \<Rightarrow>
     (case np_save [FOLDS_DIR, sf, ''label'', out] (NpyInt lbl) fs1 of
        Inl e \<Rightarrow> Inl e
      | Inr fs2 \<Rightarrow>
     (case class_dir lbl of
        Inl e \<Rightarrow> Inl e
      | Inr cls \<Rightarrow>
     (case np_save [FOLDS_DIR, sf, cls, ''data'', out] (NpyArray proc) fs2 of
        Inl e \<Rightarrow> Inl e
      | Inr fs3 \<Rightarrow> np_save [FOLDS_DIR, sf, cls, ''label'', out] (NpyInt lbl) fs3)))))))"

text \<open>The body of the train-fold loop.\<close>

definition save_train_record ::
  "'a env \<Rightarrow> ref_row list \<Rightarrow> string \<Rightarrow> nat \<Rightarrow> string \<Rightarrow> 'a fs \<Rightarrow> error + 'a fs"
where
  "save_train_record env ref cf idx rec fs =
     (case load_and_process env rec of
        Inl e \<Rightarrow> Inl e
      | Inr proc \<Rightarrow>
     (case lookup_label ref rec of
        Inl e \<Rightarrow> Inl e
      | Inr lbl \<Rightarrow>
     (let out = str_nat idx @ ''.npy'' in
     (case np_save [FOLDS_DIR, cf, ''data'', out] (NpyArray proc) fs of
        Inl e \<Rightarrow> Inl e
      | Inr fs1 \<Rightarrow> np_save [FOLDS_DIR, cf, ''label'', out] (NpyInt lbl) fs1))))"

text \<open>\<^verbatim>\<open>for idx, rec in enumerate(...)\<close>, from the index \<open>idx\<close> on.\<close>

fun write_test ::
  "'a env \<Rightarrow> ref_row list \<Rightarrow> string \<Rightarrow> nat \<Rightarrow> string list \<Rightarrow> 'a fs \<Rightarrow> error + 'a fs"
where
  "write_test env ref sf idx [] fs = Inr fs"
| "write_test env ref sf idx (rec # rest) fs =
     (case save_test_record env ref sf idx rec fs of
        Inl e \<Rightarrow> Inl e
      | Inr fs1 \<Rightarrow> write_test env ref sf (Suc idx) rest fs1)"

fun write_train ::
  "'a env \<Rightarrow> ref_row list \<Rightarrow> string \<Rightarrow> nat \<Rightarrow> string list \<Rightarrow> 'a fs \<Rightarrow> error + 'a fs"
where
  "write_train env ref cf idx [] fs = Inr fs"
| "write_train env ref cf idx (rec # rest) fs =
     (case save_train_record env ref cf idx rec fs of
        Inl e \<Rightarrow> Inl e
      | Inr fs1 \<Rightarrow> write_train env ref cf (Suc idx) rest fs1)"

text \<open>\<^verbatim>\<open>for i in range(N_FOLDS)\<close>: the test fold \<open>i\<close>, then its train fold.\<close>

fun write_folds ::
  "'a env \<Rightarrow> ref_row list \<Rightarrow> (nat \<rightharpoonup> string list) \<Rightarrow> (nat \<rightharpoonup> string list) \<Rightarrow> nat list
     \<Rightarrow> 'a fs \<Rightarrow> error + 'a fs"
where
  "write_folds env ref fold_records combined_records [] fs = Inr fs"
| "write_folds env ref fold_records combined_records (i # is) fs =
     (case fold_records i of
        None \<Rightarrow> Inl (KeyError (str_nat i))
      | Some test_recs \<Rightarrow>
     (case write_test env ref (single_name i) 0 test_recs fs of
        Inl e \<Rightarrow> Inl e
      | Inr fs1 \<Rightarrow>
     (case combined_records i of
        None \<Rightarrow> Inl (KeyError (str_nat i))
      | Some train_recs \<Rightarrow>
     (case write_train env ref (combined_name i) 0 train_recs fs1 of
        Inl e \<Rightarrow> Inl e
      | Inr fs2 \<Rightarrow> write_folds env ref fold_records combined_records is fs2))))"

subsection \<open>main\<close>

definition main :: "'a env \<Rightarrow> 'a fs \<Rightarrow> error + 'a fs" where
  "main env fs =
     (case remove_old fs of
        Inl e \<Rightarrow> Inl e
      | Inr fs0 \<Rightarrow>
     (case load_ref env of
        Inl e \<Rightarrow> Inl e
      | Inr ref \<Rightarrow>
     (case fold_lists env (map record_name ref) of
        Inl e \<Rightarrow> Inl e
      | Inr (fold_map, fold_records, combined_records) \<Rightarrow>
     (case make_dirs fs0 of
        Inl e \<Rightarrow> Inl e
      | Inr fs1 \<Rightarrow>
          write_folds env ref fold_records combined_records [0..<N_FOLDS] fs1))))"

subsection \<open>A small world to run the script in\<close>

text \<open>
  Five reference rows, one of them with a label outside the known set; recordings
  stored as MATLAB containers (with \<open>val\<close>, with \<open>ecg\<close> only, with neither, with a
  two-row \<open>val\<close>) and as a WFDB pair; a four-way split of four samples; two stand-ins
  for the transforms of \<open>utils\<close> that do not commute.
\<close>

definition ex_rows :: "(string \<times> string) list" where
  "ex_rows = [(''A00001'', ''N''), (''A00002'', ''A''), (''A00003'', ''O''),
              (''A00004'', ''~''), (''A00005'', ''N'')]"

definition ex_mat :: "string \<Rightarrow> string" where
  "ex_mat r = MAT_DIR @ bs @ r @ ''.mat''"

definition ex_dat :: "string \<Rightarrow> string" where
  "ex_dat r = HEA_DIR @ bs @ r @ ''.dat''"

definition ex_val :: "int ndarray" where
  "ex_val = \<lparr>shape = [1, 3], dtype = Int16, items = [5, - 7, 12]\<rparr>"

definition ex_val2 :: "int ndarray" where
  "ex_val2 = \<lparr>shape = [2, 3], dtype = Int16, items = [5, - 7, 12, 4, 0, - 3]\<rparr>"

definition ex_signal :: "int ndarray" where
  "ex_signal = \<lparr>shape = [3, 2], dtype = Float64, items = [1, 2, 3, 4, 5, 6]\<rparr>"

definition ex_env :: "int env" where
  "ex_env =
     \<lparr>read_csv = (\<lambda>p. if p = REF_CSV then Inr ex_rows else Inl (FileNotFoundError p)),
      os_path_join = (\<lambda>d f. d @ bs @ f),
      os_path_exists =
        (\<lambda>p. p \<in> set (map ex_mat [''A00001'', ''A00002'', ''A00005'', ''B00001'', ''B00002''])
             \<or> p = ex_dat ''A00003''),
      loadmat =
        (\<lambda>p. if p = ex_mat ''A00002'' then Inr [''ecg'' \<mapsto> ex_val]
             else if p = ex_mat ''B00001'' then Inr Map.empty
             else if p = ex_mat ''B00002'' then Inr [''val'' \<mapsto> ex_val2]
             else Inr [''val'' \<mapsto> ex_val]),
      rdsamp = (\<lambda>p. Inr ex_signal),
      float32_of = (\<lambda>x. x),
      kfold_split =
        (\<lambda>k seed n. if k = 4 \<and> n = 4
                      then Inr [([0, 2, 3], [1]), ([0, 1, 2], [3]), ([1, 2, 3], [0]),
                                ([0, 1, 3], [2])]
                      else Inl ValueError),
      signal_processing = (\<lambda>a. Inr (a\<lparr>items := map (\<lambda>x. x - 1) (items a)\<rparr>)),
      normalization_processing = (\<lambda>a. Inr (a\<lparr>items := map (\<lambda>x. 2 * x) (items a)\<rparr>))\<rparr>"

subsection \<open>Notions used in the proofs\<close>

text \<open>
  A file system is well formed when every proper ancestor of a node is a directory.
  The output tree is in order when everything under \<open>folds\<close> is a directory whose
  ancestors are directories. \<open>add_dirs p\<close> makes every non-empty prefix of \<open>p\<close> a
  directory.
\<close>

definition wf_fs :: "'a fs \<Rightarrow> bool" where
  "wf_fs fs =
     (\<forall>q. fs q \<noteq> None \<longrightarrow> (\<forall>q'. q' \<noteq> [] \<and> strict_prefix q' q \<longrightarrow> fs q' = Some Dir))"

definition tree_ok :: "'a fs \<Rightarrow> bool" where
  "tree_ok fs =
     (\<forall>q. prefix [FOLDS_DIR] q \<and> fs q \<noteq> None
          \<longrightarrow> (\<forall>q'. q' \<noteq> [] \<and> prefix q' q \<longrightarrow> fs q' = Some Dir))"

definition add_dirs :: "path \<Rightarrow> 'a fs \<Rightarrow> 'a fs" where
  "add_dirs p fs = (\<lambda>q. if q \<noteq> [] \<and> prefix q p then Some Dir else fs q)"

text \<open>
  The directory layout in the words of the specification, to compare \<open>make_dirs\<close>
  with: \<open>folds\<close>; for every fold index
  \<open>i\<close> the test directory \<open>fold{i}\<close> and the train directory named by the other
  indices, each with \<open>data\<close> and \<open>label\<close>; and under every test directory the three
  class directories, each with \<open>data\<close> and \<open>label\<close>.
\<close>

definition spec_layout_dirs :: "path list" where
  "spec_layout_dirs =
     [FOLDS_DIR] #
     concat (map (\<lambda>i.
         [[FOLDS_DIR, single_name i], [FOLDS_DIR, combined_name i]]
         @ concat (map (\<lambda>sub. [[FOLDS_DIR, single_name i, sub],
                                 [FOLDS_DIR, combined_name i, sub]]) sub_dirs)
         @ concat (map (\<lambda>cls.
             [FOLDS_DIR, single_name i, cls]
             # map (\<lambda>sub. [FOLDS_DIR, single_name i, cls, sub]) sub_dirs)
             class_subdirs))
       [0..<4])"

text \<open>
  The directories are in place when, under \<open>folds\<close>, exactly the paths of the layout
  are directories.
\<close>

definition dirs_ok :: "'a fs \<Rightarrow> bool" where
  "dirs_ok fs = (\<forall>q. prefix [FOLDS_DIR] q \<longrightarrow> (fs q = Some Dir \<longleftrightarrow> q \<in> set spec_layout_dirs))"

text \<open>
  In the words of the specification, what the writer is to leave behind for the record
  at position \<open>idx\<close> of a test list and of a train list: the processed array and the integer label in the two files
  \<open>{idx}.npy\<close> under \<open>data\<close> and \<open>label\<close>, and for a test record the same two
  contents once more under the directory of its class.
\<close>

definition spec_stored_test ::
  "'a env \<Rightarrow> ref_row list \<Rightarrow> string \<Rightarrow> nat \<Rightarrow> string \<Rightarrow> 'a fs \<Rightarrow> bool"
where
  "spec_stored_test env ref sf idx rec fs =
     (\<exists>proc lbl cls.
        load_and_process env rec = Inr proc \<and> lookup_label ref rec = Inr lbl
      \<and> class_dir lbl = Inr cls
      \<and> fs [FOLDS_DIR, sf, ''data'', str_nat idx @ ''.npy''] = Some (File (NpyArray proc))
      \<and> fs [FOLDS_DIR, sf, ''label'', str_nat idx @ ''.npy''] = Some (File (NpyInt lbl))
      \<and> fs [FOLDS_DIR, sf, cls, ''data'', str_nat idx @ ''.npy'']
          = fs [FOLDS_DIR, sf, ''data'', str_nat idx @ ''.npy'']
      \<and> fs [FOLDS_DIR, sf, cls, ''label'', str_nat idx @ ''.npy'']
          = fs [FOLDS_DIR, sf, ''label'', str_nat idx @ ''.npy''])"

definition spec_stored_train ::
  "'a env \<Rightarrow> ref_row list \<Rightarrow> string \<Rightarrow> nat \<Rightarrow> string \<Rightarrow> 'a fs \<Rightarrow> bool"
where
  "spec_stored_train env ref cf idx rec fs =
     (\<exists>proc lbl.
        load_and_process env rec = Inr proc \<and> lookup_label ref rec = Inr lbl
      \<and> fs [FOLDS_DIR, cf, ''data'', str_nat idx @ ''.npy''] = Some (File (NpyArray proc))
      \<and> fs [FOLDS_DIR, cf, ''label'', str_nat idx @ ''.npy''] = Some (File (NpyInt lbl)))"

text \<open>An old output tree with a stale file, beside a file that is not part of it.\<close>

definition ex_old_fs :: "int fs" where
  "ex_old_fs =
     [[''folds''] \<mapsto> Dir, [''folds'', ''fold0''] \<mapsto> Dir,
      [''folds'', ''fold0'', ''stale.npy''] \<mapsto> File (NpyInt 7),
      [''notes.npy''] \<mapsto> File (NpyInt 1)]"

subsection \<open>The seeded splitter\<close>

text \<open>
  scikit-learn's \<^verbatim>\<open>KFold(n_splits, shuffle=True, random_state).split\<close> and the part
  of numpy's random module it draws from, as the two libraries document them; neither is
  part of the repository. A generator state is a number: \<open>RandomState\<close> builds
  the state from an integer seed, and \<open>shuffled g n\<close> is what \<open>shuffle\<close> of a
  generator in state \<open>g\<close> leaves in \<open>arange(n)\<close>.
\<close>

record numpy_random =
  RandomState :: "nat \<Rightarrow> nat"
  shuffled :: "nat \<Rightarrow> nat \<Rightarrow> nat list"

text \<open>
  \<^verbatim>\<open>check_random_state\<close>: without a seed the process-wide generator, whose state
  differs from run to run; with an integer seed a fresh generator built from the seed.
\<close>

definition check_random_state :: "numpy_random \<Rightarrow> nat option \<Rightarrow> nat \<Rightarrow> nat" where
  "check_random_state np random_state global_state =
     (case random_state of None \<Rightarrow> global_state | Some seed \<Rightarrow> RandomState np seed)"

text \<open>
  The shuffled indices are cut into \<open>n_splits\<close> consecutive folds, the first
  \<open>n mod n_splits\<close> of them one longer than the others.
\<close>

definition fold_sizes :: "nat \<Rightarrow> nat \<Rightarrow> nat list" where
  "fold_sizes n_splits n =
     map (\<lambda>i. n div n_splits + (if i < n mod n_splits then 1 else 0)) [0..<n_splits]"

fun slices :: "nat list \<Rightarrow> nat list \<Rightarrow> nat list list" where
  "slices indices [] = []"
| "slices indices (fold_size # sizes) =
     take fold_size indices # slices (drop fold_size indices) sizes"

text \<open>
  More splits than samples raise ValueError. Every fold is yielded as the sorted
  positions outside it (train) and inside it (test).
\<close>

definition KFold_split ::
  "numpy_random \<Rightarrow> nat \<Rightarrow> nat option \<Rightarrow> nat \<Rightarrow> nat \<Rightarrow> error + (nat list \<times> nat list) list"
where
  "KFold_split np n_splits random_state global_state n =
     (if n_splits > n then Inl ValueError
      else Inr (map (\<lambda>test. (filter (\<lambda>j. j \<notin> set test) [0..<n],
                               filter (\<lambda>j. j \<in> set test) [0..<n]))
                    (slices (shuffled np (check_random_state np random_state global_state) n)
                            (fold_sizes n_splits n))))"

text \<open>
  The mapping from record identifier to fold index that the specification speaks of, as
  a function of the splits and the order of the records: the fold of a record is the
  last split one of whose test positions holds the record.
\<close>

definition spec_fold_of :: "(nat list \<times> nat list) list \<Rightarrow> string list \<Rightarrow> string \<Rightarrow> nat option" where
  "spec_fold_of splits recs r =
     (case filter (\<lambda>i. list_ex (\<lambda>j. recs ! j = r) (snd (splits ! i))) (rev [0..<length splits]) of
        [] \<Rightarrow> None
      | i # _ \<Rightarrow> Some i)"

text \<open>
  A generator whose shuffle rotates by its state, the environment of a run whose
  process-wide generator is in state \<open>g\<close>, and five record identifiers.
\<close>

definition ex_np :: numpy_random where
  "ex_np = \<lparr>RandomState = (\<lambda>seed. seed + 1), shuffled = (\<lambda>g n. rotate g [0..<n])\<rparr>"

definition ex_run_env :: "nat \<Rightarrow> int env" where
  "ex_run_env g = ex_env\<lparr>kfold_split := \<lambda>n_splits seed n. KFold_split ex_np n_splits (Some seed) g n\<rparr>"

definition ex_recs :: "string list" where
  "ex_recs = [''A00001'', ''A00002'', ''A00003'', ''A00005'', ''A00006'']"

text \<open>
  The files the loop bodies write for the record at position \<open>idx\<close> of a test list
  and of a train list, and the files a run writes for a set of fold indices.
\<close>

definition test_files :: "ref_row list \<Rightarrow> string \<Rightarrow> nat \<Rightarrow> string \<Rightarrow> path set" where
  "test_files ref sf idx rec =
     {[FOLDS_DIR, sf, ''data'', str_nat idx @ ''.npy''],
      [FOLDS_DIR, sf, ''label'', str_nat idx @ ''.npy'']}
     \<union> {p. \<exists>lbl cls. lookup_label ref rec = Inr lbl \<and> class_dir lbl = Inr cls
              \<and> (p = [FOLDS_DIR, sf, cls, ''data'', str_nat idx @ ''.npy'']
                 \<or> p = [FOLDS_DIR, sf, cls, ''label'', str_nat idx @ ''.npy''])}"

definition train_files :: "string \<Rightarrow> nat \<Rightarrow> path set" where
  "train_files cf idx =
     {[FOLDS_DIR, cf, ''data'', str_nat idx @ ''.npy''],
      [FOLDS_DIR, cf, ''label'', str_nat idx @ ''.npy'']}"

definition run_files ::
  "ref_row list \<Rightarrow> (nat \<rightharpoonup> string list) \<Rightarrow> (nat \<rightharpoonup> string list) \<Rightarrow> nat set \<Rightarrow> path set"
where
  "run_files ref fold_records combined_records folds =
     {p. \<exists>i \<in> folds.
           (\<exists>test_recs idx. fold_records i = Some test_recs \<and> idx < length test_recs
               \<and> p \<in> test_files ref (single_name i) idx (test_recs ! idx))
         \<or> (\<exists>train_recs idx. combined_records i = Some train_recs \<and> idx < length train_recs
               \<and> p \<in> train_files (combined_name i) idx)}"

section \<open>The reference table and the class directories\<close>

lemma isin_LABEL_MAP_eq:
  "isin_LABEL_MAP rows = filter (\<lambda>(r, l). l = ''N'' \<or> l = ''A'' \<or> l = ''O'') rows"
  unfolding isin_LABEL_MAP_def LABEL_MAP_def
  by (rule filter_cong) auto

lemma add_int_label_fields:
  "map (\<lambda>row. (record_name row, label row)) (add_int_label rows) = rows"
  unfolding add_int_label_def by (induction rows) auto

lemma add_int_label_int:
  "row \<in> set (add_int_label rows) \<Longrightarrow> int_label row = map_of LABEL_MAP (label row)"
  unfolding add_int_label_def by auto

lemma add_int_label_mem:
  "row \<in> set (add_int_label rows) \<Longrightarrow> (record_name row, label row) \<in> set rows"
  unfolding add_int_label_def by auto

lemma isin_label:
  "(r, l) \<in> set (isin_LABEL_MAP rows) \<Longrightarrow> l = ''N'' \<or> l = ''A'' \<or> l = ''O''"
  unfolding isin_LABEL_MAP_eq by auto

lemma load_ref_row:
  assumes "load_ref env = Inr ref" and "row \<in> set ref"
  shows "(label row = ''N'' \<and> int_label row = Some 0)
       \<or> (label row = ''A'' \<and> int_label row = Some 1)
       \<or> (label row = ''O'' \<and> int_label row = Some 2)"
proof -
  from assms(1) obtain rows where ref: "ref = add_int_label (isin_LABEL_MAP rows)"
    by (auto simp: load_ref_def split: sum.splits)
  from assms(2) have "(record_name row, label row) \<in> set (isin_LABEL_MAP rows)"
    unfolding ref by (rule add_int_label_mem)
  then have "label row = ''N'' \<or> label row = ''A'' \<or> label row = ''O''"
    by (rule isin_label)
  moreover from assms(2) have "int_label row = map_of LABEL_MAP (label row)"
    unfolding ref by (rule add_int_label_int)
  ultimately show ?thesis by (auto simp: LABEL_MAP_def)
qed

text \<open>
  Claim C7. The reference table loader keeps exactly the rows whose label is one of
  \<open>N\<close>, \<open>A\<close>, \<open>O\<close>, in their order, drops every other row without an error, and
  gives the kept rows the integers \<open>N \<mapsto> 0\<close>, \<open>A \<mapsto> 1\<close>, \<open>O \<mapsto> 2\<close>.
\<close>

theorem load_ref_filters_and_maps:
  assumes "read_csv env REF_CSV = Inr rows"
  shows "\<exists>ref. load_ref env = Inr ref
           \<and> map (\<lambda>row. (record_name row, label row)) ref
               = filter (\<lambda>(r, l). l = ''N'' \<or> l = ''A'' \<or> l = ''O'') rows
           \<and> (\<forall>row \<in> set ref.
                 int_label row = (if label row = ''N'' then Some 0
                                  else if label row = ''A'' then Some 1 else Some 2))"
proof -
  have lr: "load_ref env = Inr (add_int_label (isin_LABEL_MAP rows))"
    using assms by (simp add: load_ref_def)
  have "\<forall>row \<in> set (add_int_label (isin_LABEL_MAP rows)).
          int_label row = (if label row = ''N'' then Some 0
                           else if label row = ''A'' then Some 1 else Some 2)"
  proof
    fix row assume "row \<in> set (add_int_label (isin_LABEL_MAP rows))"
    from load_ref_row[OF lr this]
    show "int_label row = (if label row = ''N'' then Some 0
                           else if label row = ''A'' then Some 1 else Some 2)"
      by auto
  qed
  with lr show ?thesis
    by (simp add: add_int_label_fields isin_LABEL_MAP_eq)
qed

lemma lookup_label_row:
  assumes "lookup_label ref rec = Inr lbl"
  shows "\<exists>row \<in> set ref. record_name row = rec \<and> int_label row = Some lbl"
proof -
  from assms obtain row where f: "filter (\<lambda>row. record_name row = rec) ref = [row]"
      and l: "int_label row = Some lbl"
    by (auto simp: lookup_label_def split: list.splits option.splits)
  from f have "row \<in> set (filter (\<lambda>row. record_name row = rec) ref)" by simp
  with l show ?thesis by auto
qed

text \<open>
  Claim C9. The label found for a record of the filtered table is 0, 1 or 2 according to
  its CSV label \<open>N\<close>, \<open>A\<close> or \<open>O\<close>, and the class directory looked up for it is
  \<open>normal\<close>, \<open>AF\<close> or \<open>other\<close> respectively: the lookup never takes its KeyError
  branch.
\<close>

theorem class_dir_total:
  assumes "load_ref env = Inr ref" and "lookup_label ref rec = Inr lbl"
  shows "\<exists>row \<in> set ref. record_name row = rec
           \<and> (label row = ''N'' \<or> label row = ''A'' \<or> label row = ''O'')
           \<and> lbl = (if label row = ''N'' then 0 else if label row = ''A'' then 1 else 2)
           \<and> class_dir lbl = Inr (if label row = ''N'' then ''normal''
                                    else if label row = ''A'' then ''AF'' else ''other'')"
proof -
  from lookup_label_row[OF assms(2)] obtain row where
    row: "row \<in> set ref" "record_name row = rec" "int_label row = Some lbl" by auto
  from load_ref_row[OF assms(1) row(1)] row(3)
  have "(label row = ''N'' \<and> lbl = 0) \<or> (label row = ''A'' \<and> lbl = 1) \<or> (label row = ''O'' \<and> lbl = 2)"
    by auto
  then have "(label row = ''N'' \<or> label row = ''A'' \<or> label row = ''O'')
           \<and> lbl = (if label row = ''N'' then 0 else if label row = ''A'' then 1 else 2)
           \<and> class_dir lbl = Inr (if label row = ''N'' then ''normal''
                                    else if label row = ''A'' then ''AF'' else ''other'')"
    by (auto simp: class_dir_def class_names_def)
  with row show ?thesis by blast
qed

lemma filter_single_count:
  "(\<exists>x. filter P xs = [x]) \<longleftrightarrow> length (filter P xs) = 1"
  by (cases "filter P xs") (auto simp: length_Suc_conv)

lemma count_list_filter: "count_list (map f xs) y = length (filter (\<lambda>x. f x = y) xs)"
  by (induction xs) auto


theorem load_ref_filters_and_maps_witness:
  "read_csv ex_env REF_CSV = Inr ex_rows
   \<and> (\<exists>ref. load_ref ex_env = Inr ref
          \<and> map (\<lambda>row. (record_name row, label row)) ref
              = [(''A00001'', ''N''), (''A00002'', ''A''), (''A00003'', ''O''), (''A00005'', ''N'')]
          \<and> map int_label ref = [Some 0, Some 1, Some 2, Some 0])"
proof -
  have h: "read_csv ex_env REF_CSV = Inr ex_rows"
    by (simp add: ex_env_def)
  from load_ref_filters_and_maps[OF h] obtain ref where
    r: "load_ref ex_env = Inr ref"
       "map (\<lambda>row. (record_name row, label row)) ref
          = filter (\<lambda>(r, l). l = ''N'' \<or> l = ''A'' \<or> l = ''O'') ex_rows"
       "\<forall>row \<in> set ref.
           int_label row = (if label row = ''N'' then Some 0
                            else if label row = ''A'' then Some 1 else Some 2)"
    by blast
  have m: "map (\<lambda>row. (record_name row, label row)) ref
          = [(''A00001'', ''N''), (''A00002'', ''A''), (''A00003'', ''O''), (''A00005'', ''N'')]"
    using r(2) by (simp add: ex_rows_def)
  have "map int_label ref = map (\<lambda>row. if label row = ''N'' then Some 0
                            else if label row = ''A'' then Some 1 else Some 2) ref"
    using r(3) by (intro map_cong) auto
  also have "\<dots> = map (\<lambda>(n, l). if l = ''N'' then Some 0
                            else if l = ''A'' then Some 1 else Some 2)
                      (map (\<lambda>row. (record_name row, label row)) ref)"
    by simp
  also have "\<dots> = [Some 0, Some 1, Some 2, Some 0]"
    unfolding m by simp
  finally have il: "map int_label ref = [Some 0, Some 1, Some 2, Some 0]" .
  show ?thesis
    by (intro conjI exI[of _ ref] h r(1) m il)
qed

lemma ex_load_ref:
  "load_ref ex_env =
     Inr [\<lparr>record_name = ''A00001'', label = ''N'', int_label = Some 0\<rparr>,
          \<lparr>record_name = ''A00002'', label = ''A'', int_label = Some 1\<rparr>,
          \<lparr>record_name = ''A00003'', label = ''O'', int_label = Some 2\<rparr>,
          \<lparr>record_name = ''A00005'', label = ''N'', int_label = Some 0\<rparr>]"
  by (simp add: load_ref_def ex_env_def ex_rows_def isin_LABEL_MAP_def add_int_label_def
        LABEL_MAP_def)

theorem class_dir_total_witness:
  "\<exists>ref. load_ref ex_env = Inr ref \<and> lookup_label ref ''A00002'' = Inr 1
         \<and> (\<exists>row \<in> set ref. record_name row = ''A00002''
           \<and> (label row = ''N'' \<or> label row = ''A'' \<or> label row = ''O'')
           \<and> (1::int) = (if label row = ''N'' then 0 else if label row = ''A'' then 1 else 2)
           \<and> class_dir 1 = Inr (if label row = ''N'' then ''normal''
                                    else if label row = ''A'' then ''AF'' else ''other''))
         \<and> class_dir 1 = Inr ''AF''"
proof -
  let ?ref = "[\<lparr>record_name = ''A00001'', label = ''N'', int_label = Some 0\<rparr>,
          \<lparr>record_name = ''A00002'', label = ''A'', int_label = Some 1\<rparr>,
          \<lparr>record_name = ''A00003'', label = ''O'', int_label = Some 2\<rparr>,
          \<lparr>record_name = ''A00005'', label = ''N'', int_label = Some (0::int)\<rparr>]"
  have l: "lookup_label ?ref ''A00002'' = Inr 1"
    by (simp add: lookup_label_def)
  have c: "class_dir 1 = Inr ''AF''"
    by (simp add: class_dir_def class_names_def)
  show ?thesis
    by (rule exI[of _ ?ref]) (intro conjI ex_load_ref l c class_dir_total[OF ex_load_ref l])
qed

section \<open>Loading a recording\<close>

lemma take_one_drop: "k < length xs \<Longrightarrow> take (Suc 0) (drop k xs) = [xs ! k]"
  by (simp add: take_Suc_conv_app_nth)

lemma concat_map_single: "concat (map (\<lambda>i. [f i]) xs) = map f xs"
  by (induction xs) auto

lemma first_channel_2d:
  assumes "shape a = [n, c]" and "0 < c" and "length (items a) = n * c"
  shows "first_channel a =
           Inr \<lparr>shape = [n], dtype = dtype a, items = map (\<lambda>i. items a ! (i * c)) [0..<n]\<rparr>"
proof -
  have "\<And>i. i < n \<Longrightarrow> i * c < length (items a)"
    using assms(2,3) by simp
  then have "map (\<lambda>i. take (Suc 0) (drop (i * c) (items a))) [0..<n]
           = map (\<lambda>i. [items a ! (i * c)]) [0..<n]"
    by (intro map_cong refl) (simp add: take_one_drop)
  then have "concat (map (\<lambda>i. take (Suc 0) (drop (i * c) (items a))) [0..<n])
           = map (\<lambda>i. items a ! (i * c)) [0..<n]"
    by (simp only: concat_map_single)
  with assms(1,2) show ?thesis
    by (simp add: first_channel_def)
qed

text \<open>
  Claim C3. \<open>load_ecg\<close> resolves a record in a fixed order. When the MATLAB container
  exists, the field \<open>val\<close> is taken, else the field \<open>ecg\<close>, and a container with
  neither raises KeyError. When the container is absent and the WFDB data file exists,
  the result is the first channel of the two-axis signal. When neither file exists,
  FileNotFoundError is raised and its message ends with the record identifier.
\<close>

theorem load_ecg_resolution_order:
  assumes mp: "mat_path = os_path_join env MAT_DIR (rec @ ''.mat'')"
      and wp: "wfdb_path = os_path_join env HEA_DIR rec"
      and dp: "dat_path = wfdb_path @ ''.dat''"
  shows "(os_path_exists env mat_path \<and> loadmat env mat_path = Inr m \<and> m ''val'' = Some v
            \<longrightarrow> load_ecg env rec = Inr (astype_float32 env (squeeze v)))
       \<and> (os_path_exists env mat_path \<and> loadmat env mat_path = Inr m \<and> m ''val'' = None
            \<and> m ''ecg'' = Some v
            \<longrightarrow> load_ecg env rec = Inr (astype_float32 env (squeeze v)))
       \<and> (os_path_exists env mat_path \<and> loadmat env mat_path = Inr m \<and> m ''val'' = None
            \<and> m ''ecg'' = None
            \<longrightarrow> (\<exists>msg. load_ecg env rec = Inl (KeyError msg)))
       \<and> (\<not> os_path_exists env mat_path \<and> os_path_exists env dat_path
            \<and> rdsamp env wfdb_path = Inr signal \<and> shape signal = [n, c] \<and> 0 < c
            \<and> length (items signal) = n * c
            \<longrightarrow> load_ecg env rec =
                  Inr \<lparr>shape = [n], dtype = Float32,
                       items = map (\<lambda>i. float32_of env (items signal ! (i * c))) [0..<n]\<rparr>)
       \<and> (\<not> os_path_exists env mat_path \<and> \<not> os_path_exists env dat_path
            \<longrightarrow> (\<exists>msg. load_ecg env rec = Inl (FileNotFoundError msg) \<and> suffix rec msg))"
proof (intro conjI impI)
  assume "os_path_exists env mat_path \<and> loadmat env mat_path = Inr m \<and> m ''val'' = Some v"
  then show "load_ecg env rec = Inr (astype_float32 env (squeeze v))"
    using mp by (simp add: load_ecg_def)
next
  assume "os_path_exists env mat_path \<and> loadmat env mat_path = Inr m \<and> m ''val'' = None
            \<and> m ''ecg'' = Some v"
  then show "load_ecg env rec = Inr (astype_float32 env (squeeze v))"
    using mp by (simp add: load_ecg_def)
next
  assume "os_path_exists env mat_path \<and> loadmat env mat_path = Inr m \<and> m ''val'' = None
            \<and> m ''ecg'' = None"
  then show "\<exists>msg. load_ecg env rec = Inl (KeyError msg)"
    using mp by (simp add: load_ecg_def)
next
  assume a: "\<not> os_path_exists env mat_path \<and> os_path_exists env dat_path
            \<and> rdsamp env wfdb_path = Inr signal \<and> shape signal = [n, c] \<and> 0 < c
            \<and> length (items signal) = n * c"
  then have fc: "first_channel signal =
           Inr \<lparr>shape = [n], dtype = dtype signal,
                items = map (\<lambda>i. items signal ! (i * c)) [0..<n]\<rparr>"
    by (intro first_channel_2d) simp_all
  from a show "load_ecg env rec =
                  Inr \<lparr>shape = [n], dtype = Float32,
                       items = map (\<lambda>i. float32_of env (items signal ! (i * c))) [0..<n]\<rparr>"
    using mp wp dp by (simp add: load_ecg_def fc astype_float32_def)
next
  assume "\<not> os_path_exists env mat_path \<and> \<not> os_path_exists env dat_path"
  then have "load_ecg env rec = Inl (FileNotFoundError
                     (''Neither '' @ mat_path @ '' nor '' @ dat_path
                        @ '' found for record '' @ rec))"
    using mp wp dp by (simp add: load_ecg_def)
  moreover have "suffix rec (''Neither '' @ mat_path @ '' nor '' @ dat_path
                        @ '' found for record '' @ rec)"
    unfolding suffix_def by (metis append.assoc)
  ultimately show "\<exists>msg. load_ecg env rec = Inl (FileNotFoundError msg) \<and> suffix rec msg"
    by blast
qed

text \<open>Whatever the source, an array that \<open>load_ecg\<close> returns is of type float32.\<close>

lemma load_ecg_float32: "load_ecg env rec = Inr a \<Longrightarrow> dtype a = Float32"
  by (auto simp: load_ecg_def Let_def astype_float32_def split: if_splits sum.splits option.splits)

text \<open>
  From a container it has one axis exactly when the stored field has one axis of length
  other than one.
\<close>

lemma load_ecg_val_ndim:
  assumes "os_path_exists env (os_path_join env MAT_DIR (rec @ ''.mat''))"
      and "loadmat env (os_path_join env MAT_DIR (rec @ ''.mat'')) = Inr m"
      and "m ''val'' = Some v"
  shows "\<exists>a. load_ecg env rec = Inr a \<and> ndim a = length (filter (\<lambda>d. d \<noteq> 1) (shape v))"
  using assms by (simp add: load_ecg_def astype_float32_def squeeze_def ndim_def)

lemma ex_paths:
  "os_path_join ex_env MAT_DIR (r @ ''.mat'') = ex_mat r"
  "os_path_join ex_env HEA_DIR r @ ''.dat'' = ex_dat r"
  by (simp_all add: ex_env_def ex_mat_def ex_dat_def)

lemma mat_ne_dat: "ex_mat r \<noteq> ex_dat r'"
  by (simp add: ex_mat_def ex_dat_def MAT_DIR_def HEA_DIR_def)

lemma ex_mat_eq: "ex_mat r = ex_mat r' \<longleftrightarrow> r = r'"
  by (simp add: ex_mat_def)

lemma ex_dat_eq: "ex_dat r = ex_dat r' \<longleftrightarrow> r = r'"
  by (simp add: ex_dat_def)

lemma ex_exists:
  "os_path_exists ex_env (ex_mat r) \<longleftrightarrow> r \<in> set [''A00001'', ''A00002'', ''A00005'', ''B00001'', ''B00002'']"
  "os_path_exists ex_env (ex_dat r) \<longleftrightarrow> r = ''A00003''"
  by (auto simp add: ex_env_def ex_mat_eq ex_dat_eq mat_ne_dat mat_ne_dat[symmetric])

lemma ex_loadmat:
  "loadmat ex_env (ex_mat r) = 
     (if r = ''A00002'' then Inr [''ecg'' \<mapsto> ex_val]
             else if r = ''B00001'' then Inr Map.empty
             else if r = ''B00002'' then Inr [''val'' \<mapsto> ex_val2]
             else Inr [''val'' \<mapsto> ex_val])"
  by (simp add: ex_env_def ex_mat_eq)

lemma ex_float32: "float32_of ex_env = (\<lambda>x. x)"
  by (simp add: ex_env_def)

lemma ex_rdsamp: "rdsamp ex_env p = Inr ex_signal"
  by (simp add: ex_env_def)

lemma ex_load_ecg:
  "load_ecg ex_env r =
     (if os_path_exists ex_env (ex_mat r) then
        (case loadmat ex_env (ex_mat r) of
           Inl e \<Rightarrow> Inl e
         | Inr m \<Rightarrow>
             (case m ''val'' of
                Some v \<Rightarrow> Inr (astype_float32 ex_env (squeeze v))
              | None \<Rightarrow>
                  (case m ''ecg'' of
                     Some v \<Rightarrow> Inr (astype_float32 ex_env (squeeze v))
                   | None \<Rightarrow> Inl (KeyError (''No ECG variable found in '' @ ex_mat r)))))
      else if os_path_exists ex_env (ex_dat r) then
        (case first_channel ex_signal of
           Inl e \<Rightarrow> Inl e
         | Inr ecg \<Rightarrow> Inr (astype_float32 ex_env ecg))
      else Inl (FileNotFoundError
                  (''Neither '' @ ex_mat r @ '' nor '' @ ex_dat r @ '' found for record '' @ r)))"
  by (simp add: load_ecg_def Let_def ex_paths ex_rdsamp)

lemma ex_astype: "astype_float32 ex_env a = a\<lparr>dtype := Float32\<rparr>"
  by (simp add: astype_float32_def ex_float32)

text \<open>
  Claim C4, at a container whose field \<open>val\<close> has two rows of three samples: the
  array returned by \<open>load_ecg\<close> is of type float32 and keeps both axes, so it is not
  one-dimensional.
\<close>

theorem load_ecg_two_row_val:
  "load_ecg ex_env ''B00002''
     = Inr \<lparr>shape = [2, 3], dtype = Float32, items = [5, - 7, 12, 4, 0, - 3]\<rparr>
   \<and> (\<exists>a. load_ecg ex_env ''B00002'' = Inr a \<and> ndim a = 2)"
  by (simp add: ex_load_ecg ex_exists ex_loadmat ex_val2_def ex_astype squeeze_def ndim_def)

theorem load_ecg_resolution_order_witness:
  "load_ecg ex_env ''A00001'' = Inr (astype_float32 ex_env (squeeze ex_val))
   \<and> load_ecg ex_env ''A00002'' = Inr (astype_float32 ex_env (squeeze ex_val))
   \<and> (\<exists>msg. load_ecg ex_env ''B00001'' = Inl (KeyError msg))
   \<and> load_ecg ex_env ''A00003'' =
        Inr \<lparr>shape = [3], dtype = Float32,
             items = map (\<lambda>i. float32_of ex_env (items ex_signal ! (i * 2))) [0..<3]\<rparr>
   \<and> (\<exists>msg. load_ecg ex_env ''C00001'' = Inl (FileNotFoundError msg) \<and> suffix ''C00001'' msg)"
proof (intro conjI)
  let ?mp = "\<lambda>r. os_path_join ex_env MAT_DIR (r @ ''.mat'')"
  let ?wp = "\<lambda>r. os_path_join ex_env HEA_DIR r"
  have mp: "?mp r = ex_mat r" and dp: "?wp r @ ''.dat'' = ex_dat r" for r
    by (rule ex_paths)+
  have h1: "os_path_exists ex_env (?mp ''A00001'') \<and> loadmat ex_env (?mp ''A00001'') = Inr [''val'' \<mapsto> ex_val]
              \<and> [''val'' \<mapsto> ex_val] ''val'' = Some ex_val"
    unfolding mp by (simp add: ex_exists ex_loadmat)
  from load_ecg_resolution_order[OF refl refl refl, where env = ex_env and rec = "''A00001''"
      and m = "[''val'' \<mapsto> ex_val]" and v = ex_val] h1
  show "load_ecg ex_env ''A00001'' = Inr (astype_float32 ex_env (squeeze ex_val))"
    by blast
  have h2: "os_path_exists ex_env (?mp ''A00002'') \<and> loadmat ex_env (?mp ''A00002'') = Inr [''ecg'' \<mapsto> ex_val]
              \<and> [''ecg'' \<mapsto> ex_val] ''val'' = None \<and> [''ecg'' \<mapsto> ex_val] ''ecg'' = Some ex_val"
    unfolding mp by (simp add: ex_exists ex_loadmat)
  from load_ecg_resolution_order[OF refl refl refl, where env = ex_env and rec = "''A00002''"
      and m = "[''ecg'' \<mapsto> ex_val]" and v = ex_val] h2
  show "load_ecg ex_env ''A00002'' = Inr (astype_float32 ex_env (squeeze ex_val))"
    by blast
  have h3: "os_path_exists ex_env (?mp ''B00001'') \<and> loadmat ex_env (?mp ''B00001'') = Inr Map.empty
              \<and> (Map.empty :: string \<rightharpoonup> int ndarray) ''val'' = None
              \<and> (Map.empty :: string \<rightharpoonup> int ndarray) ''ecg'' = None"
    unfolding mp by (simp add: ex_exists ex_loadmat)
  from load_ecg_resolution_order[OF refl refl refl, where env = ex_env and rec = "''B00001''"
      and m = "Map.empty"] h3
  show "\<exists>msg. load_ecg ex_env ''B00001'' = Inl (KeyError msg)"
    by blast
  have h4: "\<not> os_path_exists ex_env (?mp ''A00003'') \<and> os_path_exists ex_env (?wp ''A00003'' @ ''.dat'')
              \<and> rdsamp ex_env (?wp ''A00003'') = Inr ex_signal \<and> shape ex_signal = [3, 2] \<and> (0::nat) < 2
              \<and> length (items ex_signal) = 3 * 2"
    unfolding mp dp by (simp add: ex_exists ex_rdsamp ex_signal_def)
  from load_ecg_resolution_order[OF refl refl refl, where env = ex_env and rec = "''A00003''"
      and signal = ex_signal and n = 3 and c = 2] h4
  show "load_ecg ex_env ''A00003'' =
        Inr \<lparr>shape = [3], dtype = Float32,
             items = map (\<lambda>i. float32_of ex_env (items ex_signal ! (i * 2))) [0..<3]\<rparr>"
    by blast
  have h5: "\<not> os_path_exists ex_env (?mp ''C00001'') \<and> \<not> os_path_exists ex_env (?wp ''C00001'' @ ''.dat'')"
    unfolding mp dp by (simp add: ex_exists)
  from load_ecg_resolution_order[OF refl refl refl, where env = ex_env and rec = "''C00001''"] h5
  show "\<exists>msg. load_ecg ex_env ''C00001'' = Inl (FileNotFoundError msg) \<and> suffix ''C00001'' msg"
    by blast
qed

section \<open>Fold assignment\<close>

lemma assign_fold_apply:
  "assign_fold fold_map i rs r = (if r \<in> set rs then Some i else fold_map r)"
  by (induction rs arbitrary: fold_map) auto

lemma take_indices_Inr:
  "take_indices xs idx = Inr ys \<longleftrightarrow> (\<forall>j \<in> set idx. j < length xs) \<and> ys = map (nth xs) idx"
  by (auto simp: take_indices_def list_all_iff)

lemma assign_splits_values:
  "assign_splits recs fold_map i splits = Inr fm \<Longrightarrow> fm r = Some k
     \<Longrightarrow> fold_map r = Some k \<or> (i \<le> k \<and> k < i + length splits)"
proof (induction recs fold_map i splits rule: assign_splits.induct)
  case (1 recs fold_map i)
  then show ?case by simp
next
  case (2 recs fold_map i train_idx test_idx rest)
  from "2.prems"(1) obtain rs where
    rs: "take_indices recs test_idx = Inr rs"
    and run: "assign_splits recs (assign_fold fold_map i rs) (Suc i) rest = Inr fm"
    by (auto split: sum.splits)
  from "2.IH"[OF rs run "2.prems"(2)]
  show ?case
    by (auto simp: assign_fold_apply split: if_splits)
qed

lemma assign_splits_dom:
  "assign_splits recs fold_map i splits = Inr fm \<Longrightarrow>
     (fm r \<noteq> None) \<longleftrightarrow>
       (fold_map r \<noteq> None \<or> (\<exists>test_idx \<in> snd ` set splits. \<exists>j \<in> set test_idx. recs ! j = r))"
proof (induction recs fold_map i splits rule: assign_splits.induct)
  case (1 recs fold_map i)
  then show ?case by simp
next
  case (2 recs fold_map i train_idx test_idx rest)
  from "2.prems"(1) obtain rs where
    rs: "take_indices recs test_idx = Inr rs"
    and run: "assign_splits recs (assign_fold fold_map i rs) (Suc i) rest = Inr fm"
    by (auto split: sum.splits)
  from rs have rs_eq: "rs = map (nth recs) test_idx"
    by (simp add: take_indices_Inr)
  have "r \<in> set rs \<longleftrightarrow> (\<exists>j \<in> set test_idx. recs ! j = r)"
    unfolding rs_eq by auto
  with "2.IH"[OF rs run] show ?case
    by (auto simp: assign_fold_apply)
qed

lemma assign_splits_total:
  "\<forall>test_idx \<in> snd ` set splits. \<forall>j \<in> set test_idx. j < length recs
     \<Longrightarrow> \<exists>fm. assign_splits recs fold_map i splits = Inr fm"
proof (induction recs fold_map i splits rule: assign_splits.induct)
  case (1 recs fold_map i)
  then show ?case by simp
next
  case (2 recs fold_map i train_idx test_idx rest)
  from "2.prems" have rs: "take_indices recs test_idx = Inr (map (nth recs) test_idx)"
    by (simp add: take_indices_Inr)
  from "2.prems" have "\<forall>test_idx \<in> snd ` set rest. \<forall>j \<in> set test_idx. j < length recs"
    by simp
  from "2.IH"[OF rs this] show ?case
    by (simp add: rs)
qed

lemma empty_folds_apply: "empty_folds k = (if k < N_FOLDS then Some [] else None)"
proof -
  have "map_of (map (\<lambda>i. (i, f i)) [0..<n]) k = (if k < n then Some (f k) else None)" for n and f :: "nat \<Rightarrow> string list"
    by (induction n) (auto simp: map_add_def less_Suc_eq split: option.splits)
  then show ?thesis
    by (simp add: empty_folds_def)
qed

lemma build_fold_records_result:
  "build_fold_records fold_map fold_records rs = Inr fr \<Longrightarrow>
     fr k = (case fold_records k of
               None \<Rightarrow> None
             | Some l \<Rightarrow> Some (l @ filter (\<lambda>r. fold_map r = Some k) rs))"
proof (induction fold_map fold_records rs rule: build_fold_records.induct)
  case (1 fold_map fold_records)
  then show ?case by (simp split: option.splits)
next
  case (2 fold_map fold_records r rs)
  from "2.prems" obtain fi l where
    fi: "fold_map r = Some fi" and l: "fold_records fi = Some l"
    and run: "build_fold_records fold_map (fold_records(fi \<mapsto> l @ [r])) rs = Inr fr"
    by (auto split: option.splits)
  from "2.IH"[OF fi l run] fi l show ?case
    by (auto split: option.splits)
qed

lemma build_fold_records_keys:
  "build_fold_records fold_map fold_records rs = Inr fr \<Longrightarrow> r \<in> set rs
     \<Longrightarrow> \<exists>fi. fold_map r = Some fi \<and> fold_records fi \<noteq> None"
proof (induction fold_map fold_records rs rule: build_fold_records.induct)
  case (1 fold_map fold_records)
  then show ?case by simp
next
  case (2 fold_map fold_records r' rs)
  from "2.prems"(1) obtain fi l where
    fi: "fold_map r' = Some fi" and l: "fold_records fi = Some l"
    and run: "build_fold_records fold_map (fold_records(fi \<mapsto> l @ [r'])) rs = Inr fr"
    by (auto split: option.splits)
  show ?case
  proof (cases "r = r'")
    case True
    with fi l show ?thesis by simp
  next
    case False
    with "2.prems"(2) have "r \<in> set rs" by simp
    from "2.IH"[OF fi l run this] show ?thesis
      by (auto split: if_splits simp: l)
  qed
qed

lemma build_fold_records_total:
  "\<forall>r \<in> set rs. \<exists>fi. fold_map r = Some fi \<and> fold_records fi \<noteq> None
     \<Longrightarrow> \<exists>fr. build_fold_records fold_map fold_records rs = Inr fr"
proof (induction fold_map fold_records rs rule: build_fold_records.induct)
  case (1 fold_map fold_records)
  then show ?case by simp
next
  case (2 fold_map fold_records r rs)
  from "2.prems" obtain fi l where
    fi: "fold_map r = Some fi" and l: "fold_records fi = Some l"
    by auto
  have "\<forall>r' \<in> set rs. \<exists>fi'. fold_map r' = Some fi' \<and> (fold_records(fi \<mapsto> l @ [r])) fi' \<noteq> None"
  proof
    fix r' assume "r' \<in> set rs"
    with "2.prems" obtain fi' where "fold_map r' = Some fi'" "fold_records fi' \<noteq> None"
      by auto
    then show "\<exists>fi'. fold_map r' = Some fi' \<and> (fold_records(fi \<mapsto> l @ [r])) fi' \<noteq> None"
      by (intro exI[of _ fi']) simp
  qed
  from "2.IH"[OF fi l this] show ?case
    by (simp add: fi l fun_upd_def)
qed

lemma records_not_in_result:
  "records_not_in fold_map i rs = Inr l \<Longrightarrow> l = filter (\<lambda>r. fold_map r \<noteq> Some i) rs"
proof (induction rs arbitrary: l)
  case Nil
  then show ?case by simp
next
  case (Cons r rs)
  then show ?case
    by (auto split: option.splits sum.splits if_splits)
qed

lemma records_not_in_total:
  "\<forall>r \<in> set rs. fold_map r \<noteq> None \<Longrightarrow> \<exists>l. records_not_in fold_map i rs = Inr l"
  by (induction rs) (auto split: option.splits sum.splits)

lemma build_combined_records_result:
  "build_combined_records fold_map recs combined_records ks = Inr cr \<Longrightarrow>
     cr k = (if k \<in> set ks then Some (filter (\<lambda>r. fold_map r \<noteq> Some k) recs)
             else combined_records k)"
proof (induction fold_map recs combined_records ks rule: build_combined_records.induct)
  case (1 fold_map recs combined_records)
  then show ?case by simp
next
  case (2 fold_map recs combined_records i ks)
  from "2.prems" obtain l where
    l: "records_not_in fold_map i recs = Inr l"
    and run: "build_combined_records fold_map recs (combined_records(i \<mapsto> l)) ks = Inr cr"
    by (auto split: sum.splits)
  from "2.IH"[OF l run] records_not_in_result[OF l] show ?case
    by auto
qed

lemma build_combined_records_total:
  "\<forall>r \<in> set recs. fold_map r \<noteq> None
     \<Longrightarrow> \<exists>cr. build_combined_records fold_map recs combined_records ks = Inr cr"
proof (induction fold_map recs combined_records ks rule: build_combined_records.induct)
  case (1 fold_map recs combined_records)
  then show ?case by simp
next
  case (2 fold_map recs combined_records i ks)
  from records_not_in_total[OF "2.prems"] obtain l where
    l: "records_not_in fold_map i recs = Inr l" by blast
  from "2.IH"[OF l "2.prems"] show ?case
    by (simp add: l fun_upd_def)
qed

text \<open>What the three dictionaries are once steps 2 and 3 have run through.\<close>

lemma fold_lists_result:
  assumes "fold_lists env recs = Inr (fold_map, fold_records, combined_records)"
  shows "\<forall>r \<in> set recs. \<exists>k < N_FOLDS. fold_map r = Some k"
    and "fold_records k = (if k < N_FOLDS then Some (filter (\<lambda>r. fold_map r = Some k) recs) else None)"
    and "combined_records k =
           (if k < N_FOLDS then Some (filter (\<lambda>r. fold_map r \<noteq> Some k) recs) else None)"
proof -
  from assms have
    fr: "build_fold_records fold_map empty_folds recs = Inr fold_records" and
    cr: "build_combined_records fold_map recs empty_folds [0..<N_FOLDS] = Inr combined_records"
    by (auto simp: fold_lists_def split: sum.splits)
  show "\<forall>r \<in> set recs. \<exists>k < N_FOLDS. fold_map r = Some k"
  proof
    fix r assume "r \<in> set recs"
    from build_fold_records_keys[OF fr this] show "\<exists>k < N_FOLDS. fold_map r = Some k"
      by (auto simp: empty_folds_apply split: if_splits)
  qed
  show "fold_records k = (if k < N_FOLDS then Some (filter (\<lambda>r. fold_map r = Some k) recs) else None)"
    using build_fold_records_result[OF fr, of k] by (simp add: empty_folds_apply)
  show "combined_records k =
           (if k < N_FOLDS then Some (filter (\<lambda>r. fold_map r \<noteq> Some k) recs) else None)"
    using build_combined_records_result[OF cr, of k] by (simp add: empty_folds_apply)
qed


text \<open>Steps 2 and 3 run through whenever the splitter keeps its contract.\<close>

lemma fold_lists_total:
  assumes kf: "kfold_split env N_FOLDS SEED (length recs) = Inr splits"
      and len: "length splits = N_FOLDS"
      and range: "\<forall>test_idx \<in> snd ` set splits. \<forall>j \<in> set test_idx. j < length recs"
      and cover: "\<forall>j < length recs. \<exists>test_idx \<in> snd ` set splits. j \<in> set test_idx"
  shows "\<exists>fold_map fold_records combined_records.
           fold_lists env recs = Inr (fold_map, fold_records, combined_records)"
proof -
  from assign_splits_total[OF range] obtain fm where
    fm: "assign_splits recs Map.empty 0 splits = Inr fm" by blast
  have keys: "\<exists>fi. fm r = Some fi \<and> empty_folds fi \<noteq> None" if "r \<in> set recs" for r
  proof -
    from that obtain j where j: "j < length recs" "recs ! j = r"
      by (auto simp: in_set_conv_nth)
    with cover have "\<exists>test_idx \<in> snd ` set splits. \<exists>j \<in> set test_idx. recs ! j = r"
      by blast
    with assign_splits_dom[OF fm, of r] obtain fi where fi: "fm r = Some fi"
      by auto
    from assign_splits_values[OF fm fi] len have "fi < N_FOLDS"
      by simp
    with fi show ?thesis
      by (simp add: empty_folds_apply)
  qed
  then have "\<forall>r \<in> set recs. \<exists>fi. fm r = Some fi \<and> empty_folds fi \<noteq> None"
    by blast
  from build_fold_records_total[OF this] obtain fr where
    fr: "build_fold_records fm empty_folds recs = Inr fr" by blast
  from keys have "\<forall>r \<in> set recs. fm r \<noteq> None"
    by fastforce
  from build_combined_records_total[OF this] obtain cr where
    cr: "build_combined_records fm recs empty_folds [0..<N_FOLDS] = Inr cr" by blast
  show ?thesis
    by (simp add: fold_lists_def fold_assignment_def kf fm fr cr)
qed

lemma card_less_except: "k < n \<Longrightarrow> card {i. i < n \<and> i \<noteq> k} = n - 1"
proof -
  assume "k < n"
  have "{i. i < n \<and> i \<noteq> k} = {..<n} - {k}" by auto
  with \<open>k < n\<close> show ?thesis by simp
qed

text \<open>The partition properties, for any dictionaries that steps 2 and 3 return.\<close>

lemma fold_lists_partition:
  assumes fl: "fold_lists env recs = Inr (fold_map, fold_records, combined_records)"
  shows "\<forall>r \<in> set recs. \<exists>!i. i < N_FOLDS \<and> (\<exists>l. fold_records i = Some l \<and> r \<in> set l)"
    and "\<forall>i j li lj. i \<noteq> j \<and> fold_records i = Some li \<and> fold_records j = Some lj
           \<longrightarrow> set li \<inter> set lj = {}"
    and "{r. \<exists>i < N_FOLDS. \<exists>l. fold_records i = Some l \<and> r \<in> set l} = set recs"
    and "\<forall>r \<in> set recs.
           card {i. i < N_FOLDS \<and> (\<exists>l. combined_records i = Some l \<and> r \<in> set l)} = N_FOLDS - 1"
proof -
  note fm = fold_lists_result(1)[OF fl]
  note fr = fold_lists_result(2)[OF fl]
  note cr = fold_lists_result(3)[OF fl]
  have mem: "(\<exists>l. fold_records i = Some l \<and> r \<in> set l)
               \<longleftrightarrow> i < N_FOLDS \<and> r \<in> set recs \<and> fold_map r = Some i" for i r
    by (auto simp: fr)
  have cmem: "(\<exists>l. combined_records i = Some l \<and> r \<in> set l)
               \<longleftrightarrow> i < N_FOLDS \<and> r \<in> set recs \<and> fold_map r \<noteq> Some i" for i r
    by (auto simp: cr)
  show "\<forall>r \<in> set recs. \<exists>!i. i < N_FOLDS \<and> (\<exists>l. fold_records i = Some l \<and> r \<in> set l)"
  proof
    fix r assume r: "r \<in> set recs"
    with fm obtain k where "k < N_FOLDS" "fold_map r = Some k" by blast
    with r show "\<exists>!i. i < N_FOLDS \<and> (\<exists>l. fold_records i = Some l \<and> r \<in> set l)"
      unfolding mem by auto
  qed
  show "\<forall>i j li lj. i \<noteq> j \<and> fold_records i = Some li \<and> fold_records j = Some lj
           \<longrightarrow> set li \<inter> set lj = {}"
    by (auto simp: fr split: if_splits)
  show "{r. \<exists>i < N_FOLDS. \<exists>l. fold_records i = Some l \<and> r \<in> set l} = set recs"
    unfolding mem using fm by auto
  show "\<forall>r \<in> set recs.
           card {i. i < N_FOLDS \<and> (\<exists>l. combined_records i = Some l \<and> r \<in> set l)} = N_FOLDS - 1"
  proof
    fix r assume r: "r \<in> set recs"
    with fm obtain k where k: "k < N_FOLDS" "fold_map r = Some k" by blast
    with r have "{i. i < N_FOLDS \<and> (\<exists>l. combined_records i = Some l \<and> r \<in> set l)}
                   = {i. i < N_FOLDS \<and> i \<noteq> k}"
      unfolding cmem by auto
    with card_less_except[OF k(1)]
    show "card {i. i < N_FOLDS \<and> (\<exists>l. combined_records i = Some l \<and> r \<in> set l)} = N_FOLDS - 1"
      by simp
  qed
qed

text \<open>
  Claim C1. When the splitter returns \<open>N_FOLDS\<close> splits whose test indices are in range
  and cover every position of the record array, steps 2 and 3 of \<open>main\<close> return, and
  the test folds partition the records: every record is in exactly one of the four test
  lists, two different test lists share no record, the test lists together hold exactly
  the records, and every record is in exactly \<open>N_FOLDS - 1 = 3\<close> train lists.
\<close>

theorem fold_assignment_is_partition:
  assumes kf: "kfold_split env N_FOLDS SEED (length recs) = Inr splits"
      and len: "length splits = N_FOLDS"
      and range: "\<forall>test_idx \<in> snd ` set splits. \<forall>j \<in> set test_idx. j < length recs"
      and cover: "\<forall>j < length recs. \<exists>test_idx \<in> snd ` set splits. j \<in> set test_idx"
  shows "\<exists>fold_map fold_records combined_records.
           fold_lists env recs = Inr (fold_map, fold_records, combined_records)
         \<and> (\<forall>r \<in> set recs. \<exists>!i. i < N_FOLDS \<and> (\<exists>l. fold_records i = Some l \<and> r \<in> set l))
         \<and> (\<forall>i j li lj. i \<noteq> j \<and> fold_records i = Some li \<and> fold_records j = Some lj
               \<longrightarrow> set li \<inter> set lj = {})
         \<and> {r. \<exists>i < N_FOLDS. \<exists>l. fold_records i = Some l \<and> r \<in> set l} = set recs
         \<and> (\<forall>r \<in> set recs.
               card {i. i < N_FOLDS \<and> (\<exists>l. combined_records i = Some l \<and> r \<in> set l)}
                 = N_FOLDS - 1)
         \<and> N_FOLDS - 1 = 3"
proof -
  from fold_lists_total[OF kf len range cover] obtain fm fr cr where
    fl: "fold_lists env recs = Inr (fm, fr, cr)" by blast
  have "N_FOLDS - 1 = 3" by (simp add: N_FOLDS_def)
  with fl fold_lists_partition[OF fl] show ?thesis
    by (intro exI[of _ fm] exI[of _ fr] exI[of _ cr] conjI)
qed


theorem fold_assignment_is_partition_witness:
  "\<exists>fold_map fold_records combined_records.
           fold_lists ex_env [''A00001'', ''A00002'', ''A00003'', ''A00005'']
             = Inr (fold_map, fold_records, combined_records)
         \<and> (\<forall>r \<in> set [''A00001'', ''A00002'', ''A00003'', ''A00005''].
               \<exists>!i. i < N_FOLDS \<and> (\<exists>l. fold_records i = Some l \<and> r \<in> set l))
         \<and> (\<forall>i j li lj. i \<noteq> j \<and> fold_records i = Some li \<and> fold_records j = Some lj
               \<longrightarrow> set li \<inter> set lj = {})
         \<and> {r. \<exists>i < N_FOLDS. \<exists>l. fold_records i = Some l \<and> r \<in> set l}
             = set [''A00001'', ''A00002'', ''A00003'', ''A00005'']
         \<and> (\<forall>r \<in> set [''A00001'', ''A00002'', ''A00003'', ''A00005''].
               card {i. i < N_FOLDS \<and> (\<exists>l. combined_records i = Some l \<and> r \<in> set l)}
                 = N_FOLDS - 1)
         \<and> N_FOLDS - 1 = 3"
proof -
  let ?recs = "[''A00001'', ''A00002'', ''A00003'', ''A00005'']"
  let ?splits = "[([0, 2, 3], [1]), ([0, 1, 2], [3]), ([1, 2, 3], [0]), ([0, 1, 3], [2::nat])]
                   :: (nat list \<times> nat list) list"
  have kf: "kfold_split ex_env N_FOLDS SEED (length ?recs) = Inr ?splits"
    by (simp add: ex_env_def N_FOLDS_def)
  have len: "length ?splits = N_FOLDS"
    by (simp add: N_FOLDS_def)
  have range: "\<forall>test_idx \<in> snd ` set ?splits. \<forall>j \<in> set test_idx. j < length ?recs"
    by simp
  have cover: "\<forall>j < length ?recs. \<exists>test_idx \<in> snd ` set ?splits. j \<in> set test_idx"
  proof (intro allI impI)
    fix j assume "j < length ?recs"
    then have "j = 0 \<or> j = 1 \<or> j = 2 \<or> j = 3" by auto
    then show "\<exists>test_idx \<in> snd ` set ?splits. j \<in> set test_idx" by auto
  qed
  show ?thesis
    by (rule fold_assignment_is_partition[OF kf len range cover])
qed

section \<open>Reproducible fold assignment\<close>

lemma hits_Cons:
  "filter (\<lambda>i. Q ((x # xs) ! i)) (rev [0..<length (x # xs)])
     = map Suc (filter (\<lambda>i. Q (xs ! i)) (rev [0..<length xs])) @ (if Q x then [0] else [])"
proof -
  have "[0..<length (x # xs)] = 0 # map Suc [0..<length xs]"
    by (simp add: upt_conv_Cons map_Suc_upt del: upt_Suc)
  then show ?thesis
    by (simp add: filter_map rev_map comp_def del: upt_Suc)
qed

text \<open>The fold map the loop builds, in closed form: the last split that holds the record wins.\<close>

lemma assign_splits_closed:
  "assign_splits recs fold_map i0 splits = Inr fm \<Longrightarrow>
     fm r = (case filter (\<lambda>i. list_ex (\<lambda>j. recs ! j = r) (snd (splits ! i)))
                        (rev [0..<length splits]) of
               [] \<Rightarrow> fold_map r
             | i # _ \<Rightarrow> Some (i0 + i))"
proof (induction recs fold_map i0 splits rule: assign_splits.induct)
  case (1 recs fold_map i)
  then show ?case by simp
next
  case (2 recs fold_map i0 train_idx test_idx rest)
  from "2.prems" obtain rs where
    rs: "take_indices recs test_idx = Inr rs"
    and run: "assign_splits recs (assign_fold fold_map i0 rs) (Suc i0) rest = Inr fm"
    by (auto split: sum.splits)
  from rs have rs_eq: "rs = map (nth recs) test_idx"
    by (simp add: take_indices_Inr)
  have hit: "r \<in> set rs \<longleftrightarrow> list_ex (\<lambda>j. recs ! j = r) test_idx"
    unfolding rs_eq by (auto simp: list_ex_iff)
  let ?Q = "\<lambda>s. list_ex (\<lambda>j. recs ! j = r) (snd s)"
  let ?H = "filter (\<lambda>i. ?Q (rest ! i)) (rev [0..<length rest])"
  have split: "filter (\<lambda>i. ?Q (((train_idx, test_idx) # rest) ! i))
                  (rev [0..<length ((train_idx, test_idx) # rest)])
                 = map Suc ?H @ (if ?Q (train_idx, test_idx) then [0] else [])"
    by (rule hits_Cons)
  from "2.IH"[OF rs run]
  have ih: "fm r = (case ?H of [] \<Rightarrow> assign_fold fold_map i0 rs r | i # _ \<Rightarrow> Some (Suc i0 + i))" .
  show ?case
    unfolding split ih
    by (cases ?H) (simp_all add: assign_fold_apply hit)
qed

lemma KFold_split_range:
  "KFold_split np n_splits random_state g n = Inr splits
     \<Longrightarrow> \<forall>test_idx \<in> snd ` set splits. \<forall>j \<in> set test_idx. j < n"
  by (auto simp: KFold_split_def split: if_splits)

lemma KFold_split_seeded:
  "KFold_split np n_splits (Some seed) g1 n = KFold_split np n_splits (Some seed) g2 n"
  by (simp add: KFold_split_def check_random_state_def)

text \<open>
  Claim C2. Take two runs whose splitter is scikit-learn's \<open>KFold\<close> over the same
  generator algorithm, each with its own state of the process-wide generator. Because
  \<open>main\<close> passes the integer seed 42, both runs compute the same fold map and the
  same fold lists for the same ordered records (or both raise ValueError when there are
  fewer than four records); the fold map is the function \<open>spec_fold_of\<close> of the
  seed's splits and the order of the records.
\<close>

theorem fold_assignment_reproducible:
  assumes e1: "\<forall>n_splits seed n.
                 kfold_split env1 n_splits seed n = KFold_split np n_splits (Some seed) g1 n"
      and e2: "\<forall>n_splits seed n.
                 kfold_split env2 n_splits seed n = KFold_split np n_splits (Some seed) g2 n"
  shows "fold_assignment env1 recs = fold_assignment env2 recs
       \<and> fold_lists env1 recs = fold_lists env2 recs
       \<and> (length recs < N_FOLDS \<longrightarrow> fold_assignment env1 recs = Inl ValueError)
       \<and> (N_FOLDS \<le> length recs \<longrightarrow>
            (\<exists>splits. KFold_split np N_FOLDS (Some SEED) g1 (length recs) = Inr splits
                    \<and> KFold_split np N_FOLDS (Some SEED) g2 (length recs) = Inr splits
                    \<and> fold_assignment env1 recs = Inr (spec_fold_of splits recs)))"
proof -
  have k: "kfold_split env1 N_FOLDS SEED (length recs) = kfold_split env2 N_FOLDS SEED (length recs)"
    using e1 e2 KFold_split_seeded[of np N_FOLDS SEED g1 "length recs" g2] by simp
  then have a: "fold_assignment env1 recs = fold_assignment env2 recs"
    by (simp add: fold_assignment_def)
  then have b: "fold_lists env1 recs = fold_lists env2 recs"
    by (simp add: fold_lists_def)
  have c: "fold_assignment env1 recs = Inl ValueError" if "length recs < N_FOLDS"
    using that e1 by (simp add: fold_assignment_def KFold_split_def)
  have d: "\<exists>splits. KFold_split np N_FOLDS (Some SEED) g1 (length recs) = Inr splits
                    \<and> KFold_split np N_FOLDS (Some SEED) g2 (length recs) = Inr splits
                    \<and> fold_assignment env1 recs = Inr (spec_fold_of splits recs)"
    if "N_FOLDS \<le> length recs"
  proof -
    from that obtain splits where s: "KFold_split np N_FOLDS (Some SEED) g1 (length recs) = Inr splits"
      by (auto simp: KFold_split_def)
    with KFold_split_seeded[of np N_FOLDS SEED g1 "length recs" g2]
    have s2: "KFold_split np N_FOLDS (Some SEED) g2 (length recs) = Inr splits" by simp
    from assign_splits_total[OF KFold_split_range[OF s]] obtain fm where
      fm: "assign_splits recs Map.empty 0 splits = Inr fm" by blast
    have "fm = spec_fold_of splits recs"
    proof
      fix r
      from assign_splits_closed[OF fm, of r] show "fm r = spec_fold_of splits recs r"
        by (simp add: spec_fold_of_def split: list.splits)
    qed
    with fm s e1 have "fold_assignment env1 recs = Inr (spec_fold_of splits recs)"
      by (simp add: fold_assignment_def)
    with s s2 show ?thesis by blast
  qed
  from a b c d show ?thesis by blast
qed


lemma ex_seeded_splits:
  "KFold_split ex_np N_FOLDS (Some SEED) 0 (length ex_recs)
     = Inr [([0, 1, 2], [3, 4]), ([1, 2, 3, 4], [0]), ([0, 2, 3, 4], [1]), ([0, 1, 3, 4], [2])]"
  by code_simp

lemma ex_unseeded_differ:
  "KFold_split ex_np N_FOLDS None 0 (length ex_recs)
     \<noteq> KFold_split ex_np N_FOLDS None 1 (length ex_recs)"
  by code_simp

lemma ex_spec_fold_of:
  "map (spec_fold_of [([0, 1, 2], [3, 4]), ([1, 2, 3, 4], [0]), ([0, 2, 3, 4], [1]),
                      ([0, 1, 3, 4], [2])] ex_recs) ex_recs
     = [Some 1, Some 2, Some 3, Some 0, Some 0]"
  by code_simp

theorem fold_assignment_reproducible_witness:
  "fold_assignment (ex_run_env 0) ex_recs = fold_assignment (ex_run_env 1) ex_recs
   \<and> fold_lists (ex_run_env 0) ex_recs = fold_lists (ex_run_env 1) ex_recs
   \<and> (\<exists>splits. KFold_split ex_np N_FOLDS (Some SEED) 0 (length ex_recs) = Inr splits
          \<and> KFold_split ex_np N_FOLDS (Some SEED) 1 (length ex_recs) = Inr splits
          \<and> fold_assignment (ex_run_env 0) ex_recs = Inr (spec_fold_of splits ex_recs)
          \<and> map (spec_fold_of splits ex_recs) ex_recs = [Some 1, Some 2, Some 3, Some 0, Some 0])
   \<and> KFold_split ex_np N_FOLDS None 0 (length ex_recs)
       \<noteq> KFold_split ex_np N_FOLDS None 1 (length ex_recs)"
proof -
  have h: "\<forall>n_splits seed n.
             kfold_split (ex_run_env g) n_splits seed n = KFold_split ex_np n_splits (Some seed) g n"
    for g
    by (simp add: ex_run_env_def)
  note t = fold_assignment_reproducible[OF h[of 0] h[of 1], of ex_recs]
  have n: "N_FOLDS \<le> length ex_recs"
    by (simp add: N_FOLDS_def ex_recs_def)
  with t obtain splits where
    s: "KFold_split ex_np N_FOLDS (Some SEED) 0 (length ex_recs) = Inr splits"
       "KFold_split ex_np N_FOLDS (Some SEED) 1 (length ex_recs) = Inr splits"
       "fold_assignment (ex_run_env 0) ex_recs = Inr (spec_fold_of splits ex_recs)"
    by blast
  from s(1) ex_seeded_splits have
    "splits = [([0, 1, 2], [3, 4]), ([1, 2, 3, 4], [0]), ([0, 2, 3, 4], [1]), ([0, 1, 3, 4], [2])]"
    by simp
  with ex_spec_fold_of have v: "map (spec_fold_of splits ex_recs) ex_recs
       = [Some 1, Some 2, Some 3, Some 0, Some 0]"
    by simp
  from t have a: "fold_assignment (ex_run_env 0) ex_recs = fold_assignment (ex_run_env 1) ex_recs"
    and b: "fold_lists (ex_run_env 0) ex_recs = fold_lists (ex_run_env 1) ex_recs"
    by blast+
  show ?thesis
    by (intro conjI a b exI[of _ splits] s v ex_unseeded_differ)
qed

section \<open>The output tree\<close>

lemma tree_ok_anc:
  "tree_ok fs \<Longrightarrow> prefix [FOLDS_DIR] q \<Longrightarrow> fs q \<noteq> None \<Longrightarrow> q' \<noteq> [] \<Longrightarrow> prefix q' q
     \<Longrightarrow> fs q' = Some Dir"
  unfolding tree_ok_def by blast

lemma tree_ok_Dir: "tree_ok fs \<Longrightarrow> prefix [FOLDS_DIR] q \<Longrightarrow> fs q \<noteq> None \<Longrightarrow> fs q = Some Dir"
  using tree_ok_anc[of fs q q] by (cases q) auto

lemma add_dirs_same:
  assumes "tree_ok fs" and "prefix [FOLDS_DIR] p" and "fs p \<noteq> None"
  shows "add_dirs p fs = fs"
proof
  fix q
  show "add_dirs p fs q = fs q"
    using tree_ok_anc[OF assms, of q] by (simp add: add_dirs_def)
qed

lemma add_dirs_snoc:
  "(add_dirs xs fs)(xs @ [x] \<mapsto> Dir) = add_dirs (xs @ [x]) fs"
  by (rule ext) (auto simp: add_dirs_def prefix_snoc)

lemma tree_ok_add_dirs:
  assumes ok: "tree_ok fs" and p: "prefix [FOLDS_DIR] p"
  shows "tree_ok (add_dirs p fs)"
  unfolding tree_ok_def
proof (intro allI impI)
  fix q q'
  assume q: "prefix [FOLDS_DIR] q \<and> add_dirs p fs q \<noteq> None" and q': "q' \<noteq> [] \<and> prefix q' q"
  show "add_dirs p fs q' = Some Dir"
  proof (cases "prefix q p")
    case True
    with q' have "prefix q' p" using prefix_order.trans by blast
    with q' show ?thesis by (simp add: add_dirs_def)
  next
    case False
    with q have "fs q \<noteq> None" by (simp add: add_dirs_def)
    with tree_ok_anc[OF ok _ this, of q'] q q' have "fs q' = Some Dir" by blast
    then show ?thesis by (simp add: add_dirs_def)
  qed
qed

text \<open>
  On a tree that is in order, \<open>makedirs\<close> of a path under \<open>folds\<close> succeeds and adds
  exactly the missing directories along the path.
\<close>

lemma makedirs_rev_ok:
  assumes ok: "tree_ok fs"
  shows "rp \<noteq> [] \<Longrightarrow> last rp = FOLDS_DIR \<Longrightarrow> makedirs_rev rp fs = Inr (add_dirs (rev rp) fs)"
proof (induction rp)
  case Nil
  then show ?case by simp
next
  case (Cons tail head)
  let ?p = "rev (tail # head)"
  have p_eq: "?p = rev head @ [tail]" by simp
  have up: "prefix [FOLDS_DIR] ?p"
    using Cons.prems by (cases "rev head") (auto simp: last_rev hd_rev split: if_splits)
  have step1: "(if head \<noteq> [] \<and> fs (rev head) = None then makedirs_rev head fs else Inr fs)
                 = Inr (add_dirs (rev head) fs)"
  proof (cases "head = []")
    case True
    have "add_dirs [] fs = fs" by (rule ext) (simp add: add_dirs_def)
    with True show ?thesis by simp
  next
    case False
    with Cons.prems have l: "last head = FOLDS_DIR" by simp
    have uh: "prefix [FOLDS_DIR] (rev head)"
      using False l by (cases "rev head") (auto simp: hd_rev)
    show ?thesis
    proof (cases "fs (rev head) = None")
      case True
      with False Cons.IH[OF False l] show ?thesis by simp
    next
      case nn: False
      from add_dirs_same[OF ok uh nn] nn show ?thesis by auto
    qed
  qed
  let ?fs1 = "add_dirs (rev head) fs"
  have ok1: "tree_ok ?fs1"
  proof (cases "head = []")
    case True
    have "add_dirs [] fs = fs" by (rule ext) (simp add: add_dirs_def)
    with True ok show ?thesis by simp
  next
    case False
    with Cons.prems have l: "last head = FOLDS_DIR" by simp
    have uh: "prefix [FOLDS_DIR] (rev head)"
      using False l by (cases "rev head") (auto simp: hd_rev)
    from tree_ok_add_dirs[OF ok uh] show ?thesis .
  qed
  have parent: "head = [] \<or> ?fs1 (rev head) = Some Dir"
    by (simp add: add_dirs_def)
  have step2: "(case mkdir ?p ?fs1 of Inr fs2 \<Rightarrow> Inr fs2
                | Inl e \<Rightarrow> if ?fs1 ?p = Some Dir then Inr ?fs1 else Inl e)
                 = Inr (add_dirs ?p fs)"
  proof (cases "?fs1 ?p = None")
    case True
    with parent have "mkdir ?p ?fs1 = Inr (?fs1(?p \<mapsto> Dir))"
      by (auto simp: mkdir_def)
    then show ?thesis
      by (simp only: p_eq add_dirs_snoc sum.case)
  next
    case False
    from tree_ok_Dir[OF ok1 up False] have d: "?fs1 ?p = Some Dir" .
    then have m: "mkdir ?p ?fs1 = Inl FileExistsError"
      by (simp add: mkdir_def)
    have "?fs1(?p \<mapsto> Dir) = ?fs1"
      using d by (simp add: fun_upd_idem_iff)
    then have "add_dirs ?p fs = ?fs1"
      by (simp only: p_eq add_dirs_snoc)
    with m d show ?thesis
      by simp
  qed
  show ?case
    by (simp only: makedirs_rev.simps step1 sum.case step2)
qed

lemma makedirs_ok:
  assumes "tree_ok fs" and "prefix [FOLDS_DIR] p"
  shows "makedirs p fs = Inr (add_dirs p fs)"
proof -
  from assms(2) obtain rest where p: "p = FOLDS_DIR # rest"
    by (auto simp: prefix_def)
  then have "rev p \<noteq> []" and "last (rev p) = FOLDS_DIR"
    by simp_all
  from makedirs_rev_ok[OF assms(1) this] show ?thesis
    by (simp add: makedirs_def)
qed


lemma fold_add_dirs_apply:
  "fold add_dirs ps fs q = (if q \<noteq> [] \<and> (\<exists>p \<in> set ps. prefix q p) then Some Dir else fs q)"
  by (induction ps arbitrary: fs) (auto simp: add_dirs_def)

lemma makedirs_each_ok:
  "tree_ok fs \<Longrightarrow> \<forall>p \<in> set ps. prefix [FOLDS_DIR] p
     \<Longrightarrow> makedirs_each ps fs = Inr (fold add_dirs ps fs) \<and> tree_ok (fold add_dirs ps fs)"
proof (induction ps arbitrary: fs)
  case Nil
  then show ?case by simp
next
  case (Cons p ps)
  from Cons.prems have p: "prefix [FOLDS_DIR] p" and ps: "\<forall>p \<in> set ps. prefix [FOLDS_DIR] p"
    by simp_all
  from Cons.IH[OF tree_ok_add_dirs[OF Cons.prems(1) p] ps] makedirs_ok[OF Cons.prems(1) p]
  show ?case by simp
qed

lemma dirs_under_folds: "\<forall>p \<in> set (fold_dirs @ class_dirs). prefix [FOLDS_DIR] p"
  by (auto simp: fold_dirs_def class_dirs_def)

lemma make_dirs_ok:
  assumes "tree_ok fs"
  shows "make_dirs fs = Inr (fold add_dirs (fold_dirs @ class_dirs) fs)"
    and "tree_ok (fold add_dirs (fold_dirs @ class_dirs) fs)"
proof -
  from dirs_under_folds have a: "\<forall>p \<in> set fold_dirs. prefix [FOLDS_DIR] p"
    and b: "\<forall>p \<in> set class_dirs. prefix [FOLDS_DIR] p" by auto
  note 1 = makedirs_each_ok[OF assms a]
  note 2 = makedirs_each_ok[OF conjunct2[OF 1] b]
  from 1 2 show "make_dirs fs = Inr (fold add_dirs (fold_dirs @ class_dirs) fs)"
    by (simp add: make_dirs_def)
  from 2 show "tree_ok (fold add_dirs (fold_dirs @ class_dirs) fs)"
    by simp
qed

lemma dir_names:
  "singles = [''fold0'', ''fold1'', ''fold2'', ''fold3'']"
  "combined = [''fold123'', ''fold023'', ''fold013'', ''fold012'']"
  by code_simp+

lemma prefix3:
  "prefix q [a, b, c] \<longleftrightarrow> q = [] \<or> q = [a] \<or> q = [a, b] \<or> q = [a, b, c]"
  by (cases q) (auto simp: prefix_Cons)

lemma prefix4:
  "prefix q [a, b, c, d] \<longleftrightarrow>
     q = [] \<or> q = [a] \<or> q = [a, b] \<or> q = [a, b, c] \<or> q = [a, b, c, d]"
  by (cases q) (auto simp: prefix_Cons)

lemma in_fold_dirs:
  "p \<in> set fold_dirs \<longleftrightarrow>
     (\<exists>i < N_FOLDS. \<exists>sub \<in> set sub_dirs.
         p = [FOLDS_DIR, single_name i, sub] \<or> p = [FOLDS_DIR, combined_name i, sub])"
  unfolding fold_dirs_def singles_def combined_def by auto

lemma in_class_dirs:
  "p \<in> set class_dirs \<longleftrightarrow>
     (\<exists>i < N_FOLDS. \<exists>cls \<in> set class_subdirs. \<exists>sub \<in> set sub_dirs.
         p = [FOLDS_DIR, single_name i, cls, sub])"
  unfolding class_dirs_def singles_def by (auto simp: image_iff Bex_def)

lemma in_layout_dirs:
  "q \<in> set spec_layout_dirs \<longleftrightarrow>
     q = [FOLDS_DIR] \<or>
     (\<exists>i < N_FOLDS.
         q = [FOLDS_DIR, single_name i] \<or> q = [FOLDS_DIR, combined_name i]
       \<or> (\<exists>sub \<in> set sub_dirs.
              q = [FOLDS_DIR, single_name i, sub] \<or> q = [FOLDS_DIR, combined_name i, sub])
       \<or> (\<exists>cls \<in> set class_subdirs.
              q = [FOLDS_DIR, single_name i, cls]
            \<or> (\<exists>sub \<in> set sub_dirs. q = [FOLDS_DIR, single_name i, cls, sub])))"
  unfolding spec_layout_dirs_def N_FOLDS_def by (auto simp: image_iff Bex_def)


lemma tree_dirs_layout:
  "(q \<noteq> [] \<and> (\<exists>p \<in> set (fold_dirs @ class_dirs). prefix q p)) \<longleftrightarrow> q \<in> set spec_layout_dirs"
proof
  assume a: "q \<noteq> [] \<and> (\<exists>p \<in> set (fold_dirs @ class_dirs). prefix q p)"
  then obtain p where p: "p \<in> set fold_dirs \<or> p \<in> set class_dirs" and qp: "prefix q p"
    by auto
  from p show "q \<in> set spec_layout_dirs"
  proof
    assume "p \<in> set fold_dirs"
    then obtain i sub where i: "i < N_FOLDS" and sub: "sub \<in> set sub_dirs"
      and "p = [FOLDS_DIR, single_name i, sub] \<or> p = [FOLDS_DIR, combined_name i, sub]"
      unfolding in_fold_dirs by blast
    with qp a have "q = [FOLDS_DIR] \<or> q = [FOLDS_DIR, single_name i]
        \<or> q = [FOLDS_DIR, combined_name i] \<or> q = [FOLDS_DIR, single_name i, sub]
        \<or> q = [FOLDS_DIR, combined_name i, sub]"
      by (auto simp: prefix3)
    with i sub show ?thesis
      unfolding in_layout_dirs by blast
  next
    assume "p \<in> set class_dirs"
    then obtain i cls sub where i: "i < N_FOLDS" and cls: "cls \<in> set class_subdirs"
      and sub: "sub \<in> set sub_dirs" and "p = [FOLDS_DIR, single_name i, cls, sub]"
      unfolding in_class_dirs by blast
    with qp a have "q = [FOLDS_DIR] \<or> q = [FOLDS_DIR, single_name i]
        \<or> q = [FOLDS_DIR, single_name i, cls] \<or> q = [FOLDS_DIR, single_name i, cls, sub]"
      by (auto simp: prefix4)
    with i cls sub show ?thesis
      unfolding in_layout_dirs by blast
  qed
next
  assume "q \<in> set spec_layout_dirs"
  then consider (1) "q = [FOLDS_DIR]"
    | (2) i where "i < N_FOLDS" "q = [FOLDS_DIR, single_name i] \<or> q = [FOLDS_DIR, combined_name i]"
    | (3) i sub where "i < N_FOLDS" "sub \<in> set sub_dirs"
        "q = [FOLDS_DIR, single_name i, sub] \<or> q = [FOLDS_DIR, combined_name i, sub]"
    | (4) i cls where "i < N_FOLDS" "cls \<in> set class_subdirs" "q = [FOLDS_DIR, single_name i, cls]"
    | (5) i cls sub where "i < N_FOLDS" "cls \<in> set class_subdirs" "sub \<in> set sub_dirs"
        "q = [FOLDS_DIR, single_name i, cls, sub]"
    unfolding in_layout_dirs by blast
  note c = this
  have d: "''data'' \<in> set sub_dirs" and z: "0 < N_FOLDS"
    by (simp_all add: sub_dirs_def N_FOLDS_def)
  from c have "q \<noteq> [] \<and> ((\<exists>p \<in> set fold_dirs. prefix q p) \<or> (\<exists>p \<in> set class_dirs. prefix q p))"
  proof cases
    case 1
    have "[FOLDS_DIR, single_name 0, ''data''] \<in> set fold_dirs"
      unfolding in_fold_dirs using d z by blast
    with 1 show ?thesis by (auto intro!: bexI[of _ "[FOLDS_DIR, single_name 0, ''data'']"])
  next
    case (2 i)
    then have "[FOLDS_DIR, single_name i, ''data''] \<in> set fold_dirs"
      and "[FOLDS_DIR, combined_name i, ''data''] \<in> set fold_dirs"
      unfolding in_fold_dirs using d by blast+
    with 2 show ?thesis
      by (auto intro: bexI[of _ "[FOLDS_DIR, single_name i, ''data'']"]
          bexI[of _ "[FOLDS_DIR, combined_name i, ''data'']"])
  next
    case (3 i sub)
    then have "q \<in> set fold_dirs" unfolding in_fold_dirs by blast
    with 3 show ?thesis by auto
  next
    case (4 i cls)
    then have "[FOLDS_DIR, single_name i, cls, ''data''] \<in> set class_dirs"
      unfolding in_class_dirs using d by blast
    with 4 show ?thesis
      by (auto intro: bexI[of _ "[FOLDS_DIR, single_name i, cls, ''data'']"])
  next
    case (5 i cls sub)
    then have "q \<in> set class_dirs" unfolding in_class_dirs by blast
    with 5 show ?thesis by auto
  qed
  then show "q \<noteq> [] \<and> (\<exists>p \<in> set (fold_dirs @ class_dirs). prefix q p)"
    by auto
qed

lemma layout_under_folds: "q \<in> set spec_layout_dirs \<Longrightarrow> prefix [FOLDS_DIR] q"
  unfolding in_layout_dirs by auto

lemma remove_old_result:
  assumes wf: "wf_fs fs" and r: "remove_old fs = Inr fs0"
  shows "prefix [FOLDS_DIR] q \<Longrightarrow> fs0 q = None"
    and "\<not> prefix [FOLDS_DIR] q \<Longrightarrow> fs0 q = fs q"
proof -
  show "fs0 q = fs q" if "\<not> prefix [FOLDS_DIR] q"
    using r that by (auto simp: remove_old_def rmtree_def split: if_splits option.splits node.splits)
  show "fs0 q = None" if p: "prefix [FOLDS_DIR] q"
  proof (cases "fs [FOLDS_DIR]")
    case None
    with r have eq: "fs0 = fs" by (simp add: remove_old_def)
    show ?thesis
    proof (rule ccontr)
      assume "fs0 q \<noteq> None"
      with eq have nn: "fs q \<noteq> None" by simp
      with None have "q \<noteq> [FOLDS_DIR]" by auto
      with p have "strict_prefix [FOLDS_DIR] q" by (simp add: strict_prefix_def)
      with wf nn have "fs [FOLDS_DIR] = Some Dir"
        unfolding wf_fs_def by blast
      with None show False by simp
    qed
  next
    case (Some n)
    with r p show ?thesis
      by (auto simp: remove_old_def rmtree_def split: node.splits)
  qed
qed

lemma remove_old_total:
  "\<forall>c. fs [FOLDS_DIR] \<noteq> Some (File c) \<Longrightarrow> \<exists>fs0. remove_old fs = Inr fs0"
  by (auto simp: remove_old_def rmtree_def split: option.splits node.splits)

lemma empty_tree_ok: "\<forall>q. prefix [FOLDS_DIR] q \<longrightarrow> fs q = None \<Longrightarrow> tree_ok fs"
  by (auto simp: tree_ok_def)

text \<open>After step 0, \<open>make_dirs\<close> returns the tree of the layout and nothing else.\<close>

lemma make_dirs_fresh:
  assumes empty: "\<forall>q. prefix [FOLDS_DIR] q \<longrightarrow> fs0 q = None"
  shows "\<exists>fs1. make_dirs fs0 = Inr fs1 \<and> tree_ok fs1
           \<and> (\<forall>q. fs1 q = (if q \<in> set spec_layout_dirs then Some Dir else fs0 q))"
proof -
  let ?fs1 = "fold add_dirs (fold_dirs @ class_dirs) fs0"
  note ok = empty_tree_ok[OF empty]
  have "\<forall>q. ?fs1 q = (if q \<in> set spec_layout_dirs then Some Dir else fs0 q)"
    by (simp only: fold_add_dirs_apply tree_dirs_layout) simp
  with make_dirs_ok[OF ok] show ?thesis by blast
qed

lemma make_dirs_again:
  assumes ok: "tree_ok fs1" and l: "\<forall>q \<in> set spec_layout_dirs. fs1 q = Some Dir"
  shows "make_dirs fs1 = Inr fs1" and "\<forall>p \<in> set (fold_dirs @ class_dirs). makedirs p fs1 = Inr fs1"
proof -
  have "fold add_dirs (fold_dirs @ class_dirs) fs1 = fs1"
  proof
    fix q show "fold add_dirs (fold_dirs @ class_dirs) fs1 q = fs1 q"
      using l by (simp only: fold_add_dirs_apply tree_dirs_layout) simp
  qed
  with make_dirs_ok(1)[OF ok] show "make_dirs fs1 = Inr fs1" by simp
  show "\<forall>p \<in> set (fold_dirs @ class_dirs). makedirs p fs1 = Inr fs1"
  proof
    fix p assume p: "p \<in> set (fold_dirs @ class_dirs)"
    with dirs_under_folds have u: "prefix [FOLDS_DIR] p" by blast
    then have "p \<noteq> []" by auto
    with p have "p \<in> set spec_layout_dirs"
      using tree_dirs_layout[of p] by blast
    with l have "fs1 p \<noteq> None" by simp
    from makedirs_ok[OF ok u] add_dirs_same[OF ok u this] show "makedirs p fs1 = Inr fs1"
      by simp
  qed
qed

lemma ex_old_fs_wf: "wf_fs ex_old_fs"
  unfolding wf_fs_def ex_old_fs_def
  by (auto simp: strict_prefix_def prefix_Cons split: if_splits)


lemma ex_layout_members:
  "[''folds'', ''fold0'', ''stale.npy''] \<notin> set spec_layout_dirs"
  "[''folds'', ''fold123'', ''label''] \<in> set spec_layout_dirs"
  "[''folds'', ''fold2'', ''AF'', ''data''] \<in> set spec_layout_dirs"
  by code_simp+

section \<open>The writer\<close>

lemma digit_char_inj:
  assumes "d < 10" and "d' < 10" and "digit_char d = digit_char d'"
  shows "d = d'"
proof -
  have v: "map digit_char [0..<10] = ''0123456789''"
    by (simp add: digit_char_def upt_rec)
  have "distinct (map digit_char [0..<10])"
    unfolding v by simp
  then have "inj_on digit_char (set [0..<10])"
    by (simp only: distinct_map)
  with assms show ?thesis
    by (auto simp: inj_on_def)
qed

lemma str_nat_nonempty: "str_nat n \<noteq> []"
  by (subst str_nat.simps) simp

lemma str_nat_inj: "str_nat m = str_nat n \<Longrightarrow> m = n"
proof (induction m arbitrary: n rule: str_nat.induct)
  case (1 m)
  show ?case
  proof (cases "m < 10")
    case m: True
    show ?thesis
    proof (cases "n < 10")
      case True
      with m "1.prems" have "digit_char m = digit_char n"
        by (simp add: str_nat.simps[of m] str_nat.simps[of n])
      with m True show ?thesis by (rule digit_char_inj)
    next
      case False
      with m "1.prems" have "[digit_char m] = str_nat (n div 10) @ [digit_char (n mod 10)]"
        by (simp add: str_nat.simps[of m] str_nat.simps[of n])
      then have "str_nat (n div 10) = []" by simp
      with str_nat_nonempty show ?thesis by blast
    qed
  next
    case m: False
    show ?thesis
    proof (cases "n < 10")
      case True
      with m "1.prems" have "str_nat (m div 10) @ [digit_char (m mod 10)] = [digit_char n]"
        by (simp add: str_nat.simps[of m] str_nat.simps[of n])
      then have "str_nat (m div 10) = []" by simp
      with str_nat_nonempty show ?thesis by blast
    next
      case False
      with m "1.prems" have
        "str_nat (m div 10) @ [digit_char (m mod 10)] = str_nat (n div 10) @ [digit_char (n mod 10)]"
        by (simp add: str_nat.simps[of m] str_nat.simps[of n])
      then have a: "str_nat (m div 10) = str_nat (n div 10)"
        and b: "digit_char (m mod 10) = digit_char (n mod 10)"
        by simp_all
      from "1.IH"[OF m a] have d: "m div 10 = n div 10" .
      have "m mod 10 = n mod 10"
        by (rule digit_char_inj[OF _ _ b]) simp_all
      with d show ?thesis
        by (metis div_mult_mod_eq)
    qed
  qed
qed

lemma np_save_Inr: "np_save p v fs = Inr fs' \<Longrightarrow> fs' = fs(p \<mapsto> File v)"
  by (auto simp: np_save_def split: if_splits)


lemma save_test_record_Inr:
  assumes "save_test_record env ref sf idx rec fs = Inr fs1"
  obtains proc lbl cls where
    "load_and_process env rec = Inr proc" "lookup_label ref rec = Inr lbl"
    "class_dir lbl = Inr cls"
    "fs1 = fs([FOLDS_DIR, sf, ''data'', str_nat idx @ ''.npy''] \<mapsto> File (NpyArray proc),
              [FOLDS_DIR, sf, ''label'', str_nat idx @ ''.npy''] \<mapsto> File (NpyInt lbl),
              [FOLDS_DIR, sf, cls, ''data'', str_nat idx @ ''.npy''] \<mapsto> File (NpyArray proc),
              [FOLDS_DIR, sf, cls, ''label'', str_nat idx @ ''.npy''] \<mapsto> File (NpyInt lbl))"
proof -
  from assms obtain proc lbl cls fsa fsb fsc where
    1: "load_and_process env rec = Inr proc" "lookup_label ref rec = Inr lbl"
       "class_dir lbl = Inr cls"
    and a: "np_save [FOLDS_DIR, sf, ''data'', str_nat idx @ ''.npy''] (NpyArray proc) fs = Inr fsa"
    and b: "np_save [FOLDS_DIR, sf, ''label'', str_nat idx @ ''.npy''] (NpyInt lbl) fsa = Inr fsb"
    and c: "np_save [FOLDS_DIR, sf, cls, ''data'', str_nat idx @ ''.npy''] (NpyArray proc) fsb = Inr fsc"
    and d: "np_save [FOLDS_DIR, sf, cls, ''label'', str_nat idx @ ''.npy''] (NpyInt lbl) fsc = Inr fs1"
    unfolding save_test_record_def Let_def by (auto split: sum.splits)
  from np_save_Inr[OF a] np_save_Inr[OF b] np_save_Inr[OF c] np_save_Inr[OF d]
  have "fs1 = fs([FOLDS_DIR, sf, ''data'', str_nat idx @ ''.npy''] \<mapsto> File (NpyArray proc),
              [FOLDS_DIR, sf, ''label'', str_nat idx @ ''.npy''] \<mapsto> File (NpyInt lbl),
              [FOLDS_DIR, sf, cls, ''data'', str_nat idx @ ''.npy''] \<mapsto> File (NpyArray proc),
              [FOLDS_DIR, sf, cls, ''label'', str_nat idx @ ''.npy''] \<mapsto> File (NpyInt lbl))"
    by simp
  with 1 show ?thesis by (rule that)
qed

lemma save_test_record_post:
  assumes "save_test_record env ref sf idx rec fs = Inr fs1"
  shows "spec_stored_test env ref sf idx rec fs1"
    and "\<not> prefix [FOLDS_DIR, sf] p \<Longrightarrow> fs1 p = fs p"
    and "last p \<noteq> str_nat idx @ ''.npy'' \<Longrightarrow> fs1 p = fs p"
proof -
  from assms obtain proc lbl cls where
    1: "load_and_process env rec = Inr proc" "lookup_label ref rec = Inr lbl"
       "class_dir lbl = Inr cls"
    and fs1: "fs1 = fs([FOLDS_DIR, sf, ''data'', str_nat idx @ ''.npy''] \<mapsto> File (NpyArray proc),
              [FOLDS_DIR, sf, ''label'', str_nat idx @ ''.npy''] \<mapsto> File (NpyInt lbl),
              [FOLDS_DIR, sf, cls, ''data'', str_nat idx @ ''.npy''] \<mapsto> File (NpyArray proc),
              [FOLDS_DIR, sf, cls, ''label'', str_nat idx @ ''.npy''] \<mapsto> File (NpyInt lbl))"
    by (rule save_test_record_Inr)
  show "spec_stored_test env ref sf idx rec fs1"
    unfolding spec_stored_test_def
    by (intro exI[of _ proc] exI[of _ lbl] exI[of _ cls] conjI 1) (simp_all add: fs1)
  show "fs1 p = fs p" if "\<not> prefix [FOLDS_DIR, sf] p"
    using that by (auto simp: fs1)
  show "fs1 p = fs p" if "last p \<noteq> str_nat idx @ ''.npy''"
    using that by (auto simp: fs1)
qed

lemma stored_test_frame:
  assumes "spec_stored_test env ref sf idx rec fs"
      and "\<forall>p. prefix [FOLDS_DIR, sf] p \<and> last p = str_nat idx @ ''.npy'' \<longrightarrow> fs' p = fs p"
  shows "spec_stored_test env ref sf idx rec fs'"
proof -
  from assms(1) obtain proc lbl cls where
    1: "load_and_process env rec = Inr proc" "lookup_label ref rec = Inr lbl"
       "class_dir lbl = Inr cls"
    and 2: "fs [FOLDS_DIR, sf, ''data'', str_nat idx @ ''.npy''] = Some (File (NpyArray proc))"
      "fs [FOLDS_DIR, sf, ''label'', str_nat idx @ ''.npy''] = Some (File (NpyInt lbl))"
      "fs [FOLDS_DIR, sf, cls, ''data'', str_nat idx @ ''.npy'']
          = fs [FOLDS_DIR, sf, ''data'', str_nat idx @ ''.npy'']"
      "fs [FOLDS_DIR, sf, cls, ''label'', str_nat idx @ ''.npy'']
          = fs [FOLDS_DIR, sf, ''label'', str_nat idx @ ''.npy'']"
    unfolding spec_stored_test_def by blast
  have same: "fs' [FOLDS_DIR, sf, sub, str_nat idx @ ''.npy''] = fs [FOLDS_DIR, sf, sub, str_nat idx @ ''.npy'']"
    "fs' [FOLDS_DIR, sf, c, sub, str_nat idx @ ''.npy''] = fs [FOLDS_DIR, sf, c, sub, str_nat idx @ ''.npy'']"
    for sub c
    using assms(2) by simp_all
  show ?thesis
    unfolding spec_stored_test_def
    by (intro exI[of _ proc] exI[of _ lbl] exI[of _ cls] conjI 1) (simp_all only: same 2)
qed

lemma write_test_post:
  "write_test env ref sf idx recs fs = Inr fs' \<Longrightarrow>
     (\<forall>k < length recs. spec_stored_test env ref sf (idx + k) (recs ! k) fs')
     \<and> (\<forall>p. \<not> prefix [FOLDS_DIR, sf] p \<longrightarrow> fs' p = fs p)
     \<and> (\<forall>p. (\<forall>k \<ge> idx. last p \<noteq> str_nat k @ ''.npy'') \<longrightarrow> fs' p = fs p)"
proof (induction recs arbitrary: idx fs)
  case Nil
  then show ?case by simp
next
  case (Cons rec rest)
  from Cons.prems obtain fs1 where
    s: "save_test_record env ref sf idx rec fs = Inr fs1"
    and w: "write_test env ref sf (Suc idx) rest fs1 = Inr fs'"
    by (auto split: sum.splits)
  note sp = save_test_record_post[OF s]
  from Cons.IH[OF w] have
    ih1: "\<forall>k < length rest. spec_stored_test env ref sf (Suc idx + k) (rest ! k) fs'"
    and ih2: "\<forall>p. \<not> prefix [FOLDS_DIR, sf] p \<longrightarrow> fs' p = fs1 p"
    and ih3: "\<forall>p. (\<forall>k \<ge> Suc idx. last p \<noteq> str_nat k @ ''.npy'') \<longrightarrow> fs' p = fs1 p"
    by blast+
  have head: "spec_stored_test env ref sf idx rec fs'"
  proof (rule stored_test_frame[OF sp(1)], intro allI impI)
    fix p assume "prefix [FOLDS_DIR, sf] p \<and> last p = str_nat idx @ ''.npy''"
    then have "\<forall>k \<ge> Suc idx. last p \<noteq> str_nat k @ ''.npy''"
      by (auto dest: str_nat_inj)
    with ih3 show "fs' p = fs1 p" by blast
  qed
  have a: "\<forall>k < length (rec # rest). spec_stored_test env ref sf (idx + k) ((rec # rest) ! k) fs'"
  proof (intro allI impI)
    fix k assume k: "k < length (rec # rest)"
    show "spec_stored_test env ref sf (idx + k) ((rec # rest) ! k) fs'"
    proof (cases k)
      case 0
      with head show ?thesis by simp
    next
      case (Suc j)
      with k ih1 show ?thesis by simp
    qed
  qed
  have b: "\<forall>p. \<not> prefix [FOLDS_DIR, sf] p \<longrightarrow> fs' p = fs p"
    using ih2 sp(2) by simp
  have c: "\<forall>p. (\<forall>k \<ge> idx. last p \<noteq> str_nat k @ ''.npy'') \<longrightarrow> fs' p = fs p"
  proof (intro allI impI)
    fix p assume h: "\<forall>k \<ge> idx. last p \<noteq> str_nat k @ ''.npy''"
    then have "fs' p = fs1 p" using ih3 by simp
    also from h have "fs1 p = fs p" by (intro sp(3)) simp
    finally show "fs' p = fs p" .
  qed
  from a b c show ?case by blast
qed

lemma save_train_record_post:
  assumes "save_train_record env ref cf idx rec fs = Inr fs1"
  shows "spec_stored_train env ref cf idx rec fs1"
    and "\<not> prefix [FOLDS_DIR, cf] p \<Longrightarrow> fs1 p = fs p"
    and "last p \<noteq> str_nat idx @ ''.npy'' \<Longrightarrow> fs1 p = fs p"
proof -
  from assms obtain proc lbl fsa where
    1: "load_and_process env rec = Inr proc" "lookup_label ref rec = Inr lbl"
    and a: "np_save [FOLDS_DIR, cf, ''data'', str_nat idx @ ''.npy''] (NpyArray proc) fs = Inr fsa"
    and b: "np_save [FOLDS_DIR, cf, ''label'', str_nat idx @ ''.npy''] (NpyInt lbl) fsa = Inr fs1"
    unfolding save_train_record_def Let_def by (auto split: sum.splits)
  from np_save_Inr[OF a] np_save_Inr[OF b]
  have fs1: "fs1 = fs([FOLDS_DIR, cf, ''data'', str_nat idx @ ''.npy''] \<mapsto> File (NpyArray proc),
              [FOLDS_DIR, cf, ''label'', str_nat idx @ ''.npy''] \<mapsto> File (NpyInt lbl))"
    by simp
  show "spec_stored_train env ref cf idx rec fs1"
    unfolding spec_stored_train_def
    by (intro exI[of _ proc] exI[of _ lbl] conjI 1) (simp_all add: fs1)
  show "fs1 p = fs p" if "\<not> prefix [FOLDS_DIR, cf] p"
    using that by (auto simp: fs1)
  show "fs1 p = fs p" if "last p \<noteq> str_nat idx @ ''.npy''"
    using that by (auto simp: fs1)
qed

lemma stored_train_frame:
  assumes "spec_stored_train env ref cf idx rec fs"
      and "\<forall>p. prefix [FOLDS_DIR, cf] p \<and> last p = str_nat idx @ ''.npy'' \<longrightarrow> fs' p = fs p"
  shows "spec_stored_train env ref cf idx rec fs'"
proof -
  from assms(1) obtain proc lbl where
    1: "load_and_process env rec = Inr proc" "lookup_label ref rec = Inr lbl"
    and 2: "fs [FOLDS_DIR, cf, ''data'', str_nat idx @ ''.npy''] = Some (File (NpyArray proc))"
      "fs [FOLDS_DIR, cf, ''label'', str_nat idx @ ''.npy''] = Some (File (NpyInt lbl))"
    unfolding spec_stored_train_def by blast
  have same: "fs' [FOLDS_DIR, cf, sub, str_nat idx @ ''.npy''] = fs [FOLDS_DIR, cf, sub, str_nat idx @ ''.npy'']"
    for sub
    using assms(2) by simp
  show ?thesis
    unfolding spec_stored_train_def
    by (intro exI[of _ proc] exI[of _ lbl] conjI 1) (simp_all only: same 2)
qed

lemma write_train_post:
  "write_train env ref cf idx recs fs = Inr fs' \<Longrightarrow>
     (\<forall>k < length recs. spec_stored_train env ref cf (idx + k) (recs ! k) fs')
     \<and> (\<forall>p. \<not> prefix [FOLDS_DIR, cf] p \<longrightarrow> fs' p = fs p)
     \<and> (\<forall>p. (\<forall>k \<ge> idx. last p \<noteq> str_nat k @ ''.npy'') \<longrightarrow> fs' p = fs p)"
proof (induction recs arbitrary: idx fs)
  case Nil
  then show ?case by simp
next
  case (Cons rec rest)
  from Cons.prems obtain fs1 where
    s: "save_train_record env ref cf idx rec fs = Inr fs1"
    and w: "write_train env ref cf (Suc idx) rest fs1 = Inr fs'"
    by (auto split: sum.splits)
  note sp = save_train_record_post[OF s]
  from Cons.IH[OF w] have
    ih1: "\<forall>k < length rest. spec_stored_train env ref cf (Suc idx + k) (rest ! k) fs'"
    and ih2: "\<forall>p. \<not> prefix [FOLDS_DIR, cf] p \<longrightarrow> fs' p = fs1 p"
    and ih3: "\<forall>p. (\<forall>k \<ge> Suc idx. last p \<noteq> str_nat k @ ''.npy'') \<longrightarrow> fs' p = fs1 p"
    by blast+
  have head: "spec_stored_train env ref cf idx rec fs'"
  proof (rule stored_train_frame[OF sp(1)], intro allI impI)
    fix p assume "prefix [FOLDS_DIR, cf] p \<and> last p = str_nat idx @ ''.npy''"
    then have "\<forall>k \<ge> Suc idx. last p \<noteq> str_nat k @ ''.npy''"
      by (auto dest: str_nat_inj)
    with ih3 show "fs' p = fs1 p" by blast
  qed
  have a: "\<forall>k < length (rec # rest). spec_stored_train env ref cf (idx + k) ((rec # rest) ! k) fs'"
  proof (intro allI impI)
    fix k assume k: "k < length (rec # rest)"
    show "spec_stored_train env ref cf (idx + k) ((rec # rest) ! k) fs'"
    proof (cases k)
      case 0
      with head show ?thesis by simp
    next
      case (Suc j)
      with k ih1 show ?thesis by simp
    qed
  qed
  have b: "\<forall>p. \<not> prefix [FOLDS_DIR, cf] p \<longrightarrow> fs' p = fs p"
    using ih2 sp(2) by simp
  have c: "\<forall>p. (\<forall>k \<ge> idx. last p \<noteq> str_nat k @ ''.npy'') \<longrightarrow> fs' p = fs p"
  proof (intro allI impI)
    fix p assume h: "\<forall>k \<ge> idx. last p \<noteq> str_nat k @ ''.npy''"
    then have "fs' p = fs1 p" using ih3 by simp
    also from h have "fs1 p = fs p" by (intro sp(3)) simp
    finally show "fs' p = fs p" .
  qed
  from a b c show ?case by blast
qed

lemma single_name_inj: "single_name i = single_name j \<Longrightarrow> i = j"
  by (auto simp: single_name_def dest: str_nat_inj)

lemma less_4_cases: "i < N_FOLDS \<Longrightarrow> i = 0 \<or> i = Suc 0 \<or> i = 2 \<or> i = 3"
  by (auto simp: N_FOLDS_def)

lemma combined_name_values:
  "combined_name 0 = ''fold123''" "combined_name (Suc 0) = ''fold023''"
  "combined_name 2 = ''fold013''" "combined_name 3 = ''fold012''"
  "single_name 0 = ''fold0''" "single_name (Suc 0) = ''fold1''"
  "single_name 2 = ''fold2''" "single_name 3 = ''fold3''"
  by code_simp+

lemma combined_name_inj:
  "i < N_FOLDS \<Longrightarrow> j < N_FOLDS \<Longrightarrow> combined_name i = combined_name j \<Longrightarrow> i = j"
  by (drule less_4_cases)+ (auto simp: combined_name_values)

lemma single_ne_combined:
  "i < N_FOLDS \<Longrightarrow> j < N_FOLDS \<Longrightarrow> single_name i \<noteq> combined_name j"
  by (drule less_4_cases)+ (auto simp: combined_name_values)

lemma prefix_dir_unique: "prefix [d, a] p \<Longrightarrow> prefix [d, b] p \<Longrightarrow> a = b"
  by (auto simp: prefix_def)

lemma write_folds_post:
  "write_folds env ref fold_records combined_records is fs = Inr fs' \<Longrightarrow> distinct is
     \<Longrightarrow> \<forall>i \<in> set is. i < N_FOLDS \<Longrightarrow>
     (\<forall>i \<in> set is. \<exists>test_recs train_recs.
         fold_records i = Some test_recs \<and> combined_records i = Some train_recs
       \<and> (\<forall>idx < length test_recs.
             spec_stored_test env ref (single_name i) idx (test_recs ! idx) fs')
       \<and> (\<forall>idx < length train_recs.
             spec_stored_train env ref (combined_name i) idx (train_recs ! idx) fs'))
     \<and> (\<forall>p. (\<forall>i \<in> set is. \<not> prefix [FOLDS_DIR, single_name i] p
                             \<and> \<not> prefix [FOLDS_DIR, combined_name i] p)
            \<longrightarrow> fs' p = fs p)"
proof (induction "is" arbitrary: fs)
  case Nil
  then show ?case by simp
next
  case (Cons i "is")
  from Cons.prems(1) obtain test_recs fs1 train_recs fs2 where
    fr: "fold_records i = Some test_recs"
    and wt: "write_test env ref (single_name i) 0 test_recs fs = Inr fs1"
    and cr: "combined_records i = Some train_recs"
    and wr: "write_train env ref (combined_name i) 0 train_recs fs1 = Inr fs2"
    and rest: "write_folds env ref fold_records combined_records is fs2 = Inr fs'"
    by (auto split: option.splits sum.splits)
  from Cons.prems have i: "i < N_FOLDS" "i \<notin> set is" and d: "distinct is"
    and lt: "\<forall>j \<in> set is. j < N_FOLDS"
    by simp_all
  from write_test_post[OF wt] have
    t1: "\<forall>k < length test_recs. spec_stored_test env ref (single_name i) k (test_recs ! k) fs1"
    and t2: "\<forall>p. \<not> prefix [FOLDS_DIR, single_name i] p \<longrightarrow> fs1 p = fs p"
    by simp_all
  from write_train_post[OF wr] have
    r1: "\<forall>k < length train_recs. spec_stored_train env ref (combined_name i) k (train_recs ! k) fs2"
    and r2: "\<forall>p. \<not> prefix [FOLDS_DIR, combined_name i] p \<longrightarrow> fs2 p = fs1 p"
    by simp_all
  from Cons.IH[OF rest d lt] have
    ih1: "\<forall>i \<in> set is. \<exists>test_recs train_recs.
         fold_records i = Some test_recs \<and> combined_records i = Some train_recs
       \<and> (\<forall>idx < length test_recs.
             spec_stored_test env ref (single_name i) idx (test_recs ! idx) fs')
       \<and> (\<forall>idx < length train_recs.
             spec_stored_train env ref (combined_name i) idx (train_recs ! idx) fs')"
    and ih2: "\<forall>p. (\<forall>i \<in> set is. \<not> prefix [FOLDS_DIR, single_name i] p
                             \<and> \<not> prefix [FOLDS_DIR, combined_name i] p)
            \<longrightarrow> fs' p = fs2 p"
    by blast+
  have other: "\<not> prefix [FOLDS_DIR, single_name j] p \<and> \<not> prefix [FOLDS_DIR, combined_name j] p"
    if "prefix [FOLDS_DIR, single_name i] p \<or> prefix [FOLDS_DIR, combined_name i] p"
      and "j \<in> set is" for j p
  proof -
    from that(2) i lt have j: "j < N_FOLDS" "j \<noteq> i" by auto
    from that(1) show ?thesis
    proof
      assume p: "prefix [FOLDS_DIR, single_name i] p"
      show ?thesis
        using prefix_dir_unique[OF p] single_name_inj[of i j] single_ne_combined[OF i(1) j(1)] j(2)
        by blast
    next
      assume p: "prefix [FOLDS_DIR, combined_name i] p"
      show ?thesis
        using prefix_dir_unique[OF p] combined_name_inj[OF i(1) j(1)]
          single_ne_combined[OF j(1) i(1)] j(2)
        by metis
    qed
  qed
  have keep_t: "fs' p = fs1 p" if "prefix [FOLDS_DIR, single_name i] p" for p
  proof -
    from that other have "fs' p = fs2 p" using ih2 by blast
    moreover from that have "\<not> prefix [FOLDS_DIR, combined_name i] p"
      using prefix_dir_unique[OF that] single_ne_combined[OF i(1) i(1)] by blast
    with r2 have "fs2 p = fs1 p" by blast
    ultimately show ?thesis by simp
  qed
  have keep_r: "fs' p = fs2 p" if "prefix [FOLDS_DIR, combined_name i] p" for p
    using that other ih2 by blast
  have head_t: "\<forall>idx < length test_recs.
             spec_stored_test env ref (single_name i) idx (test_recs ! idx) fs'"
    using t1 keep_t by (auto intro: stored_test_frame)
  have head_r: "\<forall>idx < length train_recs.
             spec_stored_train env ref (combined_name i) idx (train_recs ! idx) fs'"
    using r1 keep_r by (auto intro: stored_train_frame)
  have a: "\<forall>j \<in> set (i # is). \<exists>test_recs train_recs.
         fold_records j = Some test_recs \<and> combined_records j = Some train_recs
       \<and> (\<forall>idx < length test_recs.
             spec_stored_test env ref (single_name j) idx (test_recs ! idx) fs')
       \<and> (\<forall>idx < length train_recs.
             spec_stored_train env ref (combined_name j) idx (train_recs ! idx) fs')"
    using fr cr head_t head_r ih1 by simp
  have b: "\<forall>p. (\<forall>j \<in> set (i # is). \<not> prefix [FOLDS_DIR, single_name j] p
                             \<and> \<not> prefix [FOLDS_DIR, combined_name j] p)
            \<longrightarrow> fs' p = fs p"
    using ih2 r2 t2 by simp
  from a b show ?case by blast
qed

text \<open>What a run of \<open>main\<close> that returns has stored, fold by fold.\<close>

lemma main_post:
  assumes "main env fs = Inr fs'"
  shows "\<exists>ref fold_map fold_records combined_records.
           load_ref env = Inr ref
         \<and> fold_lists env (map record_name ref) = Inr (fold_map, fold_records, combined_records)
         \<and> (\<forall>i < N_FOLDS. \<exists>test_recs train_recs.
               fold_records i = Some test_recs \<and> combined_records i = Some train_recs
             \<and> (\<forall>idx < length test_recs.
                   spec_stored_test env ref (single_name i) idx (test_recs ! idx) fs')
             \<and> (\<forall>idx < length train_recs.
                   spec_stored_train env ref (combined_name i) idx (train_recs ! idx) fs'))"
proof -
  from assms obtain fs0 ref fm fr cr fs1 where
    ref: "load_ref env = Inr ref"
    and fl: "fold_lists env (map record_name ref) = Inr (fm, fr, cr)"
    and w: "write_folds env ref fr cr [0..<N_FOLDS] fs1 = Inr fs'"
    unfolding main_def by (auto split: sum.splits prod.splits)
  have "distinct [0..<N_FOLDS]" and "\<forall>i \<in> set [0..<N_FOLDS]. i < N_FOLDS"
    by simp_all
  from write_folds_post[OF w this]
  have "\<forall>i < N_FOLDS. \<exists>test_recs train_recs.
               fr i = Some test_recs \<and> cr i = Some train_recs
             \<and> (\<forall>idx < length test_recs.
                   spec_stored_test env ref (single_name i) idx (test_recs ! idx) fs')
             \<and> (\<forall>idx < length train_recs.
                   spec_stored_train env ref (combined_name i) idx (train_recs ! idx) fs')"
    by simp
  with ref fl show ?thesis by blast
qed

text \<open>The writer changes nothing but the files of the run, and no directory.\<close>

lemma np_save_dirs:
  "np_save p v fs = Inr fs' \<Longrightarrow> fs' q = Some Dir \<longleftrightarrow> fs q = Some Dir"
  by (auto simp: np_save_def split: if_splits)

lemma np_save_frame: "np_save p v fs = Inr fs' \<Longrightarrow> q \<noteq> p \<Longrightarrow> fs' q = fs q"
  by (auto simp: np_save_def split: if_splits)

lemma save_test_record_frame:
  assumes "save_test_record env ref sf idx rec fs = Inr fs1"
  shows "fs1 q = Some Dir \<longleftrightarrow> fs q = Some Dir"
    and "q \<notin> test_files ref sf idx rec \<Longrightarrow> fs1 q = fs q"
proof -
  from assms obtain proc lbl cls fsa fsb fsc where
    1: "lookup_label ref rec = Inr lbl" "class_dir lbl = Inr cls"
    and a: "np_save [FOLDS_DIR, sf, ''data'', str_nat idx @ ''.npy''] (NpyArray proc) fs = Inr fsa"
    and b: "np_save [FOLDS_DIR, sf, ''label'', str_nat idx @ ''.npy''] (NpyInt lbl) fsa = Inr fsb"
    and c: "np_save [FOLDS_DIR, sf, cls, ''data'', str_nat idx @ ''.npy''] (NpyArray proc) fsb = Inr fsc"
    and d: "np_save [FOLDS_DIR, sf, cls, ''label'', str_nat idx @ ''.npy''] (NpyInt lbl) fsc = Inr fs1"
    unfolding save_test_record_def Let_def by (auto split: sum.splits)
  show "fs1 q = Some Dir \<longleftrightarrow> fs q = Some Dir"
    by (simp only: np_save_dirs[OF a] np_save_dirs[OF b] np_save_dirs[OF c] np_save_dirs[OF d])
  assume q: "q \<notin> test_files ref sf idx rec"
  with 1 have ne: "q \<noteq> [FOLDS_DIR, sf, ''data'', str_nat idx @ ''.npy'']"
    "q \<noteq> [FOLDS_DIR, sf, ''label'', str_nat idx @ ''.npy'']"
    "q \<noteq> [FOLDS_DIR, sf, cls, ''data'', str_nat idx @ ''.npy'']"
    "q \<noteq> [FOLDS_DIR, sf, cls, ''label'', str_nat idx @ ''.npy'']"
    unfolding test_files_def by blast+
  show "fs1 q = fs q"
    by (simp only: np_save_frame[OF a ne(1)] np_save_frame[OF b ne(2)] np_save_frame[OF c ne(3)]
          np_save_frame[OF d ne(4)])
qed

lemma save_train_record_frame:
  assumes "save_train_record env ref cf idx rec fs = Inr fs1"
  shows "fs1 q = Some Dir \<longleftrightarrow> fs q = Some Dir"
    and "q \<notin> train_files cf idx \<Longrightarrow> fs1 q = fs q"
proof -
  from assms obtain proc lbl fsa where
    a: "np_save [FOLDS_DIR, cf, ''data'', str_nat idx @ ''.npy''] (NpyArray proc) fs = Inr fsa"
    and b: "np_save [FOLDS_DIR, cf, ''label'', str_nat idx @ ''.npy''] (NpyInt lbl) fsa = Inr fs1"
    unfolding save_train_record_def Let_def by (auto split: sum.splits)
  show "fs1 q = Some Dir \<longleftrightarrow> fs q = Some Dir"
    by (simp only: np_save_dirs[OF a] np_save_dirs[OF b])
  assume q: "q \<notin> train_files cf idx"
  then have ne: "q \<noteq> [FOLDS_DIR, cf, ''data'', str_nat idx @ ''.npy'']"
    "q \<noteq> [FOLDS_DIR, cf, ''label'', str_nat idx @ ''.npy'']"
    unfolding train_files_def by blast+
  show "fs1 q = fs q"
    by (simp only: np_save_frame[OF a ne(1)] np_save_frame[OF b ne(2)])
qed

lemma write_test_frame:
  "write_test env ref sf idx recs fs = Inr fs' \<Longrightarrow>
     (\<forall>q. fs' q = Some Dir \<longleftrightarrow> fs q = Some Dir)
     \<and> (\<forall>q. (\<forall>k < length recs. q \<notin> test_files ref sf (idx + k) (recs ! k)) \<longrightarrow> fs' q = fs q)"
proof (induction recs arbitrary: idx fs)
  case Nil
  then show ?case by simp
next
  case (Cons rec rest)
  from Cons.prems obtain fs1 where
    s: "save_test_record env ref sf idx rec fs = Inr fs1"
    and w: "write_test env ref sf (Suc idx) rest fs1 = Inr fs'"
    by (auto split: sum.splits)
  note f = save_test_record_frame[OF s]
  from Cons.IH[OF w] have
    ih1: "\<forall>q. fs' q = Some Dir \<longleftrightarrow> fs1 q = Some Dir"
    and ih2: "\<forall>q. (\<forall>k < length rest. q \<notin> test_files ref sf (Suc idx + k) (rest ! k))
                \<longrightarrow> fs' q = fs1 q"
    by blast+
  have a: "\<forall>q. fs' q = Some Dir \<longleftrightarrow> fs q = Some Dir"
    using ih1 f(1) by simp
  have b: "\<forall>q. (\<forall>k < length (rec # rest). q \<notin> test_files ref sf (idx + k) ((rec # rest) ! k))
                \<longrightarrow> fs' q = fs q"
  proof (intro allI impI)
    fix q assume h: "\<forall>k < length (rec # rest). q \<notin> test_files ref sf (idx + k) ((rec # rest) ! k)"
    from h[rule_format, of 0] have "q \<notin> test_files ref sf idx rec" by simp
    then have 1: "fs1 q = fs q" by (rule f(2))
    have "\<forall>k < length rest. q \<notin> test_files ref sf (Suc idx + k) (rest ! k)"
    proof (intro allI impI)
      fix k assume "k < length rest"
      with h[rule_format, of "Suc k"] show "q \<notin> test_files ref sf (Suc idx + k) (rest ! k)"
        by simp
    qed
    with ih2 have "fs' q = fs1 q" by blast
    with 1 show "fs' q = fs q" by simp
  qed
  from a b show ?case by blast
qed

lemma write_train_frame:
  "write_train env ref cf idx recs fs = Inr fs' \<Longrightarrow>
     (\<forall>q. fs' q = Some Dir \<longleftrightarrow> fs q = Some Dir)
     \<and> (\<forall>q. (\<forall>k < length recs. q \<notin> train_files cf (idx + k)) \<longrightarrow> fs' q = fs q)"
proof (induction recs arbitrary: idx fs)
  case Nil
  then show ?case by simp
next
  case (Cons rec rest)
  from Cons.prems obtain fs1 where
    s: "save_train_record env ref cf idx rec fs = Inr fs1"
    and w: "write_train env ref cf (Suc idx) rest fs1 = Inr fs'"
    by (auto split: sum.splits)
  note f = save_train_record_frame[OF s]
  from Cons.IH[OF w] have
    ih1: "\<forall>q. fs' q = Some Dir \<longleftrightarrow> fs1 q = Some Dir"
    and ih2: "\<forall>q. (\<forall>k < length rest. q \<notin> train_files cf (Suc idx + k)) \<longrightarrow> fs' q = fs1 q"
    by blast+
  have a: "\<forall>q. fs' q = Some Dir \<longleftrightarrow> fs q = Some Dir"
    using ih1 f(1) by simp
  have b: "\<forall>q. (\<forall>k < length (rec # rest). q \<notin> train_files cf (idx + k)) \<longrightarrow> fs' q = fs q"
  proof (intro allI impI)
    fix q assume h: "\<forall>k < length (rec # rest). q \<notin> train_files cf (idx + k)"
    from h[rule_format, of 0] have "q \<notin> train_files cf idx" by simp
    then have 1: "fs1 q = fs q" by (rule f(2))
    have "\<forall>k < length rest. q \<notin> train_files cf (Suc idx + k)"
    proof (intro allI impI)
      fix k assume "k < length rest"
      with h[rule_format, of "Suc k"] show "q \<notin> train_files cf (Suc idx + k)"
        by simp
    qed
    with ih2 have "fs' q = fs1 q" by blast
    with 1 show "fs' q = fs q" by simp
  qed
  from a b show ?case by blast
qed

lemma write_folds_frame:
  "write_folds env ref fold_records combined_records is fs = Inr fs' \<Longrightarrow>
     (\<forall>q. fs' q = Some Dir \<longleftrightarrow> fs q = Some Dir)
     \<and> (\<forall>q. q \<notin> run_files ref fold_records combined_records (set is) \<longrightarrow> fs' q = fs q)"
proof (induction "is" arbitrary: fs)
  case Nil
  then show ?case by simp
next
  case (Cons i "is")
  from Cons.prems(1) obtain test_recs fs1 train_recs fs2 where
    fr: "fold_records i = Some test_recs"
    and wt: "write_test env ref (single_name i) 0 test_recs fs = Inr fs1"
    and cr: "combined_records i = Some train_recs"
    and wr: "write_train env ref (combined_name i) 0 train_recs fs1 = Inr fs2"
    and rest: "write_folds env ref fold_records combined_records is fs2 = Inr fs'"
    by (auto split: option.splits sum.splits)
  from write_test_frame[OF wt] have
    t1: "\<forall>q. fs1 q = Some Dir \<longleftrightarrow> fs q = Some Dir"
    and t2: "\<forall>q. (\<forall>k < length test_recs. q \<notin> test_files ref (single_name i) k (test_recs ! k))
                \<longrightarrow> fs1 q = fs q"
    by simp_all
  from write_train_frame[OF wr] have
    r1: "\<forall>q. fs2 q = Some Dir \<longleftrightarrow> fs1 q = Some Dir"
    and r2: "\<forall>q. (\<forall>k < length train_recs. q \<notin> train_files (combined_name i) k) \<longrightarrow> fs2 q = fs1 q"
    by simp_all
  from Cons.IH[OF rest] have
    ih1: "\<forall>q. fs' q = Some Dir \<longleftrightarrow> fs2 q = Some Dir"
    and ih2: "\<forall>q. q \<notin> run_files ref fold_records combined_records (set is) \<longrightarrow> fs' q = fs2 q"
    by blast+
  have a: "\<forall>q. fs' q = Some Dir \<longleftrightarrow> fs q = Some Dir"
    using ih1 r1 t1 by simp
  have b: "\<forall>q. q \<notin> run_files ref fold_records combined_records (set (i # is)) \<longrightarrow> fs' q = fs q"
  proof (intro allI impI)
    fix q assume h: "q \<notin> run_files ref fold_records combined_records (set (i # is))"
    then have "q \<notin> run_files ref fold_records combined_records (set is)"
      unfolding run_files_def by auto
    with ih2 have 1: "fs' q = fs2 q" by blast
    from h fr have "\<forall>k < length test_recs. q \<notin> test_files ref (single_name i) k (test_recs ! k)"
      unfolding run_files_def by auto
    with t2 have 2: "fs1 q = fs q" by blast
    from h cr have "\<forall>k < length train_recs. q \<notin> train_files (combined_name i) k"
      unfolding run_files_def by auto
    with r2 have 3: "fs2 q = fs1 q" by blast
    from 1 2 3 show "fs' q = fs q" by simp
  qed
  from a b show ?case by blast
qed

lemma run_files_under_folds:
  "q \<in> run_files ref fold_records combined_records folds \<Longrightarrow> prefix [FOLDS_DIR] q"
  unfolding run_files_def test_files_def train_files_def by auto

section \<open>What a run stores\<close>

lemma ex_main_run:
  "(case main ex_env ex_old_fs of
      Inl e \<Rightarrow> False
    | Inr fs' \<Rightarrow>
        fs' [''folds'', ''fold0'', ''data'', ''0.npy'']
          = Some (File (NpyArray \<lparr>shape = [3], dtype = Float32, items = [8, - 16, 22]\<rparr>))
      \<and> fs' [''folds'', ''fold0'', ''AF'', ''label'', ''0.npy''] = Some (File (NpyInt 1))
      \<and> fs' [''folds'', ''fold123'', ''data'', ''2.npy'']
          = Some (File (NpyArray \<lparr>shape = [3], dtype = Float32, items = [8, - 16, 22]\<rparr>))
      \<and> fs' [''folds'', ''fold0'', ''stale.npy''] = None)"
  by code_simp

lemma ex_main_Inr:
  obtains fs' where "main ex_env ex_old_fs = Inr fs'"
    "fs' [''folds'', ''fold0'', ''data'', ''0.npy'']
          = Some (File (NpyArray \<lparr>shape = [3], dtype = Float32, items = [8, - 16, 22]\<rparr>))"
    "fs' [''folds'', ''fold0'', ''AF'', ''label'', ''0.npy''] = Some (File (NpyInt 1))"
    "fs' [''folds'', ''fold123'', ''data'', ''2.npy'']
          = Some (File (NpyArray \<lparr>shape = [3], dtype = Float32, items = [8, - 16, 22]\<rparr>))"
    "fs' [''folds'', ''fold0'', ''stale.npy''] = None"
  using ex_main_run by (cases "main ex_env ex_old_fs") simp_all



lemma load_and_process_Inr:
  "load_and_process env rec = Inr proc \<Longrightarrow>
     \<exists>raw filtered. load_ecg env rec = Inr raw \<and> signal_processing env raw = Inr filtered
        \<and> normalization_processing env filtered = Inr proc"
  by (auto simp: load_and_process_def split: sum.splits)

text \<open>
  Claim C8. After a run of \<open>main\<close> that returns, every stored waveform (in a test
  fold, in its class directory and in a train fold) is \<open>normalization_processing\<close>
  applied to the result of \<open>signal_processing\<close> applied to what \<open>load_ecg\<close> returned
  for the record.
\<close>

theorem stored_waveform_is_normalized_processed:
  assumes "main env fs = Inr fs'"
  shows "\<exists>ref fold_map fold_records combined_records.
           load_ref env = Inr ref
         \<and> fold_lists env (map record_name ref) = Inr (fold_map, fold_records, combined_records)
         \<and> (\<forall>i < N_FOLDS. \<exists>test_recs train_recs.
               fold_records i = Some test_recs \<and> combined_records i = Some train_recs
             \<and> (\<forall>idx < length test_recs. \<exists>raw filtered proc cls.
                   load_ecg env (test_recs ! idx) = Inr raw
                 \<and> signal_processing env raw = Inr filtered
                 \<and> normalization_processing env filtered = Inr proc
                 \<and> fs' [FOLDS_DIR, single_name i, ''data'', str_nat idx @ ''.npy'']
                     = Some (File (NpyArray proc))
                 \<and> fs' [FOLDS_DIR, single_name i, cls, ''data'', str_nat idx @ ''.npy'']
                     = Some (File (NpyArray proc)))
             \<and> (\<forall>idx < length train_recs. \<exists>raw filtered proc.
                   load_ecg env (train_recs ! idx) = Inr raw
                 \<and> signal_processing env raw = Inr filtered
                 \<and> normalization_processing env filtered = Inr proc
                 \<and> fs' [FOLDS_DIR, combined_name i, ''data'', str_nat idx @ ''.npy'']
                     = Some (File (NpyArray proc))))"
proof -
  from main_post[OF assms] obtain ref fm fr cr where
    ref: "load_ref env = Inr ref"
    and fl: "fold_lists env (map record_name ref) = Inr (fm, fr, cr)"
    and st: "\<forall>i < N_FOLDS. \<exists>test_recs train_recs.
               fr i = Some test_recs \<and> cr i = Some train_recs
             \<and> (\<forall>idx < length test_recs.
                   spec_stored_test env ref (single_name i) idx (test_recs ! idx) fs')
             \<and> (\<forall>idx < length train_recs.
                   spec_stored_train env ref (combined_name i) idx (train_recs ! idx) fs')"
    by blast
  have t: "\<exists>raw filtered proc cls.
                   load_ecg env rec = Inr raw
                 \<and> signal_processing env raw = Inr filtered
                 \<and> normalization_processing env filtered = Inr proc
                 \<and> fs' [FOLDS_DIR, sf, ''data'', str_nat idx @ ''.npy'']
                     = Some (File (NpyArray proc))
                 \<and> fs' [FOLDS_DIR, sf, cls, ''data'', str_nat idx @ ''.npy'']
                     = Some (File (NpyArray proc))"
    if "spec_stored_test env ref sf idx rec fs'" for sf idx rec
  proof -
    from that obtain proc cls where
      p: "load_and_process env rec = Inr proc"
      and f: "fs' [FOLDS_DIR, sf, ''data'', str_nat idx @ ''.npy''] = Some (File (NpyArray proc))"
      "fs' [FOLDS_DIR, sf, cls, ''data'', str_nat idx @ ''.npy'']
          = fs' [FOLDS_DIR, sf, ''data'', str_nat idx @ ''.npy'']"
      unfolding spec_stored_test_def by blast
    from load_and_process_Inr[OF p] f show ?thesis by auto
  qed
  have r: "\<exists>raw filtered proc.
                   load_ecg env rec = Inr raw
                 \<and> signal_processing env raw = Inr filtered
                 \<and> normalization_processing env filtered = Inr proc
                 \<and> fs' [FOLDS_DIR, cf, ''data'', str_nat idx @ ''.npy'']
                     = Some (File (NpyArray proc))"
    if "spec_stored_train env ref cf idx rec fs'" for cf idx rec
  proof -
    from that obtain proc where
      p: "load_and_process env rec = Inr proc"
      and f: "fs' [FOLDS_DIR, cf, ''data'', str_nat idx @ ''.npy''] = Some (File (NpyArray proc))"
      unfolding spec_stored_train_def by blast
    from load_and_process_Inr[OF p] f show ?thesis by auto
  qed
  have "\<forall>i < N_FOLDS. \<exists>test_recs train_recs.
               fr i = Some test_recs \<and> cr i = Some train_recs
             \<and> (\<forall>idx < length test_recs. \<exists>raw filtered proc cls.
                   load_ecg env (test_recs ! idx) = Inr raw
                 \<and> signal_processing env raw = Inr filtered
                 \<and> normalization_processing env filtered = Inr proc
                 \<and> fs' [FOLDS_DIR, single_name i, ''data'', str_nat idx @ ''.npy'']
                     = Some (File (NpyArray proc))
                 \<and> fs' [FOLDS_DIR, single_name i, cls, ''data'', str_nat idx @ ''.npy'']
                     = Some (File (NpyArray proc)))
             \<and> (\<forall>idx < length train_recs. \<exists>raw filtered proc.
                   load_ecg env (train_recs ! idx) = Inr raw
                 \<and> signal_processing env raw = Inr filtered
                 \<and> normalization_processing env filtered = Inr proc
                 \<and> fs' [FOLDS_DIR, combined_name i, ''data'', str_nat idx @ ''.npy'']
                     = Some (File (NpyArray proc)))"
  proof (intro allI impI)
    fix i assume "i < N_FOLDS"
    with st obtain test_recs train_recs where
      1: "fr i = Some test_recs" "cr i = Some train_recs"
      and 2: "\<forall>idx < length test_recs.
                   spec_stored_test env ref (single_name i) idx (test_recs ! idx) fs'"
      and 3: "\<forall>idx < length train_recs.
                   spec_stored_train env ref (combined_name i) idx (train_recs ! idx) fs'"
      by blast
    from 2 t have t2: "\<forall>idx < length test_recs. \<exists>raw filtered proc cls.
                   load_ecg env (test_recs ! idx) = Inr raw
                 \<and> signal_processing env raw = Inr filtered
                 \<and> normalization_processing env filtered = Inr proc
                 \<and> fs' [FOLDS_DIR, single_name i, ''data'', str_nat idx @ ''.npy'']
                     = Some (File (NpyArray proc))
                 \<and> fs' [FOLDS_DIR, single_name i, cls, ''data'', str_nat idx @ ''.npy'']
                     = Some (File (NpyArray proc))"
      by blast
    from 3 r have r3: "\<forall>idx < length train_recs. \<exists>raw filtered proc.
                   load_ecg env (train_recs ! idx) = Inr raw
                 \<and> signal_processing env raw = Inr filtered
                 \<and> normalization_processing env filtered = Inr proc
                 \<and> fs' [FOLDS_DIR, combined_name i, ''data'', str_nat idx @ ''.npy'']
                     = Some (File (NpyArray proc))"
      by blast
    from 1 t2 r3 show "\<exists>test_recs train_recs.
               fr i = Some test_recs \<and> cr i = Some train_recs
             \<and> (\<forall>idx < length test_recs. \<exists>raw filtered proc cls.
                   load_ecg env (test_recs ! idx) = Inr raw
                 \<and> signal_processing env raw = Inr filtered
                 \<and> normalization_processing env filtered = Inr proc
                 \<and> fs' [FOLDS_DIR, single_name i, ''data'', str_nat idx @ ''.npy'']
                     = Some (File (NpyArray proc))
                 \<and> fs' [FOLDS_DIR, single_name i, cls, ''data'', str_nat idx @ ''.npy'']
                     = Some (File (NpyArray proc)))
             \<and> (\<forall>idx < length train_recs. \<exists>raw filtered proc.
                   load_ecg env (train_recs ! idx) = Inr raw
                 \<and> signal_processing env raw = Inr filtered
                 \<and> normalization_processing env filtered = Inr proc
                 \<and> fs' [FOLDS_DIR, combined_name i, ''data'', str_nat idx @ ''.npy'']
                     = Some (File (NpyArray proc)))"
      by blast
  qed
  with ref fl show ?thesis by blast
qed

lemma distinct_if_count_1: "\<forall>x \<in> set xs. count_list xs x = 1 \<Longrightarrow> distinct xs"
proof (induction xs)
  case Nil
  then show ?case by simp
next
  case (Cons x xs)
  from Cons.prems have "count_list xs x = 0" by simp
  then have nx: "x \<notin> set xs" by (simp add: count_list_0_iff)
  have "\<forall>y \<in> set xs. count_list xs y = 1"
  proof
    fix y assume y: "y \<in> set xs"
    with nx have "y \<noteq> x" by auto
    with Cons.prems y show "count_list xs y = 1" by auto
  qed
  with Cons.IH nx show ?case by simp
qed

lemma lookup_label_filter:
  "lookup_label ref rec = Inr lbl \<Longrightarrow>
     \<exists>row. filter (\<lambda>row. record_name row = rec) ref = [row] \<and> int_label row = Some lbl"
  by (auto simp: lookup_label_def split: list.splits option.splits)

lemma lookup_label_count:
  assumes "load_ref env = Inr ref"
  shows "(\<exists>lbl. lookup_label ref rec = Inr lbl) \<longleftrightarrow> count_list (map record_name ref) rec = 1"
proof
  assume "\<exists>lbl. lookup_label ref rec = Inr lbl"
  then obtain lbl where "lookup_label ref rec = Inr lbl" ..
  from lookup_label_filter[OF this] obtain row where
    "filter (\<lambda>row. record_name row = rec) ref = [row]" by blast
  then show "count_list (map record_name ref) rec = 1"
    by (simp add: count_list_filter)
next
  assume "count_list (map record_name ref) rec = 1"
  then have "length (filter (\<lambda>row. record_name row = rec) ref) = 1"
    by (simp add: count_list_filter)
  with filter_single_count[of "\<lambda>row. record_name row = rec" ref]
  obtain row where f: "filter (\<lambda>row. record_name row = rec) ref = [row]"
    by blast
  then have "row \<in> set (filter (\<lambda>row. record_name row = rec) ref)" by simp
  then have "row \<in> set ref" by simp
  from load_ref_row[OF assms this] obtain l where l: "int_label row = Some l" by blast
  show "\<exists>lbl. lookup_label ref rec = Inr lbl"
    by (rule exI[of _ l]) (simp add: lookup_label_def f l)
qed

lemma lookup_label_not_unique:
  "count_list (map record_name ref) rec \<noteq> 1 \<Longrightarrow> lookup_label ref rec = Inl TypeError"
  by (auto simp: lookup_label_def count_list_filter split: list.splits)

lemma main_needs_unique_ids:
  assumes ref: "load_ref env = Inr ref" and m: "main env fs = Inr fs'"
  shows "distinct (map record_name ref)"
proof (rule distinct_if_count_1, rule ballI)
  fix r assume r: "r \<in> set (map record_name ref)"
  from main_post[OF m] obtain ref' fm fr cr where
    ref': "load_ref env = Inr ref'"
    and fl': "fold_lists env (map record_name ref') = Inr (fm, fr, cr)"
    and st': "\<forall>i < N_FOLDS. \<exists>test_recs train_recs.
               fr i = Some test_recs \<and> cr i = Some train_recs
             \<and> (\<forall>idx < length test_recs.
                   spec_stored_test env ref' (single_name i) idx (test_recs ! idx) fs')
             \<and> (\<forall>idx < length train_recs.
                   spec_stored_train env ref' (combined_name i) idx (train_recs ! idx) fs')"
    by blast
  from ref ref' have eq: "ref' = ref" by simp
  note fl = fl'[unfolded eq] and st = st'[unfolded eq]
  from fold_lists_result(1)[OF fl] r obtain k where k: "k < N_FOLDS" "fm r = Some k"
    by blast
  from st k(1) obtain test_recs where
    t: "fr k = Some test_recs"
    and s: "\<forall>idx < length test_recs. spec_stored_test env ref (single_name k) idx (test_recs ! idx) fs'"
    by blast
  from fold_lists_result(2)[OF fl, of k] t k(1)
  have "test_recs = filter (\<lambda>r. fm r = Some k) (map record_name ref)" by simp
  with r k(2) have "r \<in> set test_recs" by simp
  then obtain idx where "idx < length test_recs" "test_recs ! idx = r"
    by (auto simp: in_set_conv_nth)
  with s have "spec_stored_test env ref (single_name k) idx r fs'" by auto
  then have "\<exists>lbl. lookup_label ref r = Inr lbl"
    unfolding spec_stored_test_def by blast
  with lookup_label_count[OF ref]
  show "count_list (map record_name ref) r = 1" by simp
qed

text \<open>
  Claim C10. Over the filtered reference table, the label lookup for an identifier
  returns a label exactly when the identifier occurs once among the rows; the label it
  returns is the one \<open>LABEL_MAP\<close> gives the row's CSV label; an identifier that occurs
  more than once (or not at all) raises TypeError; and a run of \<open>main\<close> returns only
  if the identifiers of the filtered table are pairwise different.
\<close>

theorem label_lookup_requires_unique_ids:
  assumes "load_ref env = Inr ref"
  shows "(\<forall>rec. (\<exists>lbl. lookup_label ref rec = Inr lbl)
                 \<longleftrightarrow> count_list (map record_name ref) rec = 1)
       \<and> (\<forall>rec lbl. lookup_label ref rec = Inr lbl
             \<longrightarrow> (\<exists>row \<in> set ref. record_name row = rec
                    \<and> map_of LABEL_MAP (label row) = Some lbl))
       \<and> (\<forall>rec. count_list (map record_name ref) rec \<noteq> 1
             \<longrightarrow> lookup_label ref rec = Inl TypeError)
       \<and> (\<forall>fs fs'. main env fs = Inr fs' \<longrightarrow> distinct (map record_name ref))"
proof (intro conjI allI impI)
  fix rec
  show "(\<exists>lbl. lookup_label ref rec = Inr lbl) \<longleftrightarrow> count_list (map record_name ref) rec = 1"
    by (rule lookup_label_count[OF assms])
next
  fix rec lbl assume l: "lookup_label ref rec = Inr lbl"
  from lookup_label_row[OF l] obtain row where
    row: "row \<in> set ref" "record_name row = rec" "int_label row = Some lbl" by blast
  from assms obtain rows where "ref = add_int_label (isin_LABEL_MAP rows)"
    by (auto simp: load_ref_def split: sum.splits)
  with row(1) have "int_label row = map_of LABEL_MAP (label row)"
    by (simp add: add_int_label_int)
  with row show "\<exists>row \<in> set ref. record_name row = rec
                    \<and> map_of LABEL_MAP (label row) = Some lbl"
    by auto
next
  fix rec assume "count_list (map record_name ref) rec \<noteq> 1"
  then show "lookup_label ref rec = Inl TypeError"
    by (rule lookup_label_not_unique)
next
  fix fs fs' :: "'a fs" assume "main env fs = Inr fs'"
  with assms show "distinct (map record_name ref)"
    by (rule main_needs_unique_ids)
qed


lemma ex_load_ref_dup:
  "load_ref (ex_env\<lparr>read_csv := \<lambda>p. Inr (ex_rows @ [(''A00001'', ''A'')])\<rparr>) =
     Inr [\<lparr>record_name = ''A00001'', label = ''N'', int_label = Some 0\<rparr>,
          \<lparr>record_name = ''A00002'', label = ''A'', int_label = Some 1\<rparr>,
          \<lparr>record_name = ''A00003'', label = ''O'', int_label = Some 2\<rparr>,
          \<lparr>record_name = ''A00005'', label = ''N'', int_label = Some 0\<rparr>,
          \<lparr>record_name = ''A00001'', label = ''A'', int_label = Some 1\<rparr>]"
  by (simp add: load_ref_def ex_rows_def isin_LABEL_MAP_def add_int_label_def LABEL_MAP_def)

theorem label_lookup_requires_unique_ids_witness:
  "(\<exists>ref. load_ref ex_env = Inr ref
        \<and> count_list (map record_name ref) ''A00003'' = 1
        \<and> (\<exists>lbl. lookup_label ref ''A00003'' = Inr lbl)
        \<and> distinct (map record_name ref))
   \<and> (\<exists>ref. load_ref (ex_env\<lparr>read_csv := \<lambda>p. Inr (ex_rows @ [(''A00001'', ''A'')])\<rparr>) = Inr ref
        \<and> count_list (map record_name ref) ''A00001'' = 2
        \<and> lookup_label ref ''A00001'' = Inl TypeError)"
proof (intro conjI)
  let ?ref = "[\<lparr>record_name = ''A00001'', label = ''N'', int_label = Some 0\<rparr>,
          \<lparr>record_name = ''A00002'', label = ''A'', int_label = Some 1\<rparr>,
          \<lparr>record_name = ''A00003'', label = ''O'', int_label = Some 2\<rparr>,
          \<lparr>record_name = ''A00005'', label = ''N'', int_label = Some (0::int)\<rparr>]"
  note t = label_lookup_requires_unique_ids[OF ex_load_ref]
  obtain fs' where m: "main ex_env ex_old_fs = Inr fs'"
    by (rule ex_main_Inr)
  have c: "count_list (map record_name ?ref) ''A00003'' = 1"
    by simp
  from t c have l: "\<exists>lbl. lookup_label ?ref ''A00003'' = Inr lbl"
    by blast
  from t m have d: "distinct (map record_name ?ref)"
    by blast
  show "\<exists>ref. load_ref ex_env = Inr ref
        \<and> count_list (map record_name ref) ''A00003'' = 1
        \<and> (\<exists>lbl. lookup_label ref ''A00003'' = Inr lbl)
        \<and> distinct (map record_name ref)"
    by (intro exI[of _ ?ref] conjI ex_load_ref c l d)
next
  let ?ref = "[\<lparr>record_name = ''A00001'', label = ''N'', int_label = Some 0\<rparr>,
          \<lparr>record_name = ''A00002'', label = ''A'', int_label = Some 1\<rparr>,
          \<lparr>record_name = ''A00003'', label = ''O'', int_label = Some 2\<rparr>,
          \<lparr>record_name = ''A00005'', label = ''N'', int_label = Some 0\<rparr>,
          \<lparr>record_name = ''A00001'', label = ''A'', int_label = Some (1::int)\<rparr>]"
  note t = label_lookup_requires_unique_ids[OF ex_load_ref_dup]
  have c: "count_list (map record_name ?ref) ''A00001'' = 2"
    by simp
  then have "count_list (map record_name ?ref) ''A00001'' \<noteq> 1"
    by simp
  with t have l: "lookup_label ?ref ''A00001'' = Inl TypeError"
    by blast
  show "\<exists>ref. load_ref (ex_env\<lparr>read_csv := \<lambda>p. Inr (ex_rows @ [(''A00001'', ''A'')])\<rparr>) = Inr ref
        \<and> count_list (map record_name ref) ''A00001'' = 2
        \<and> lookup_label ref ''A00001'' = Inl TypeError"
    by (intro exI[of _ ?ref] conjI ex_load_ref_dup c l)
qed

theorem stored_waveform_is_normalized_processed_witness:
  "\<exists>fs'. main ex_env ex_old_fs = Inr fs'
     \<and> (\<exists>ref fold_map fold_records combined_records.
           load_ref ex_env = Inr ref
         \<and> fold_lists ex_env (map record_name ref) = Inr (fold_map, fold_records, combined_records)
         \<and> (\<forall>i < N_FOLDS. \<exists>test_recs train_recs.
               fold_records i = Some test_recs \<and> combined_records i = Some train_recs
             \<and> (\<forall>idx < length test_recs. \<exists>raw filtered proc cls.
                   load_ecg ex_env (test_recs ! idx) = Inr raw
                 \<and> signal_processing ex_env raw = Inr filtered
                 \<and> normalization_processing ex_env filtered = Inr proc
                 \<and> fs' [FOLDS_DIR, single_name i, ''data'', str_nat idx @ ''.npy'']
                     = Some (File (NpyArray proc))
                 \<and> fs' [FOLDS_DIR, single_name i, cls, ''data'', str_nat idx @ ''.npy'']
                     = Some (File (NpyArray proc)))
             \<and> (\<forall>idx < length train_recs. \<exists>raw filtered proc.
                   load_ecg ex_env (train_recs ! idx) = Inr raw
                 \<and> signal_processing ex_env raw = Inr filtered
                 \<and> normalization_processing ex_env filtered = Inr proc
                 \<and> fs' [FOLDS_DIR, combined_name i, ''data'', str_nat idx @ ''.npy'']
                     = Some (File (NpyArray proc)))))
     \<and> fs' [''folds'', ''fold0'', ''data'', ''0.npy'']
          = Some (File (NpyArray \<lparr>shape = [3], dtype = Float32, items = [8, - 16, 22]\<rparr>))
     \<and> fs' [''folds'', ''fold123'', ''data'', ''2.npy'']
          = Some (File (NpyArray \<lparr>shape = [3], dtype = Float32, items = [8, - 16, 22]\<rparr>))"
proof -
  obtain fs' where m: "main ex_env ex_old_fs = Inr fs'"
    and v: "fs' [''folds'', ''fold0'', ''data'', ''0.npy'']
          = Some (File (NpyArray \<lparr>shape = [3], dtype = Float32, items = [8, - 16, 22]\<rparr>))"
    "fs' [''folds'', ''fold123'', ''data'', ''2.npy'']
          = Some (File (NpyArray \<lparr>shape = [3], dtype = Float32, items = [8, - 16, 22]\<rparr>))"
    by (rule ex_main_Inr)
  show ?thesis
    by (intro exI[of _ fs'] conjI m v stored_waveform_is_normalized_processed[OF m])
qed

section \<open>The output tree of a run\<close>

text \<open>
  Claim C6. A run of \<open>main\<close> that returns has removed the prior output tree (step 0)
  and created the layout from nothing (step 4) before it wrote its files: under
  \<open>folds\<close>, the state the writer starts from holds exactly the directories of the
  layout, that is \<open>fold{i}\<close> and the train directory named by the other three indices
  for every fold index \<open>i\<close> below 4, each with \<open>data\<close> and \<open>label\<close>, and under
  every \<open>fold{i}\<close> the directories \<open>AF\<close>, \<open>normal\<close> and \<open>other\<close>, each with
  \<open>data\<close> and \<open>label\<close>. In the state the run returns the directories under
  \<open>folds\<close> are still exactly these, every other node under \<open>folds\<close> is a file
  this run wrote, and nothing outside \<open>folds\<close> has changed. Creating the directories
  again, one by one or all of them, raises nothing and changes nothing. The file system
  the run starts from is well formed.
\<close>

theorem main_rebuilds_tree:
  assumes wf: "wf_fs fs" and m: "main env fs = Inr fs'"
  shows "\<exists>ref fold_map fold_records combined_records fs0 fs1.
           load_ref env = Inr ref
         \<and> fold_lists env (map record_name ref) = Inr (fold_map, fold_records, combined_records)
         \<and> remove_old fs = Inr fs0 \<and> make_dirs fs0 = Inr fs1
         \<and> write_folds env ref fold_records combined_records [0..<N_FOLDS] fs1 = Inr fs'
         \<and> (\<forall>q. prefix [FOLDS_DIR] q
                 \<longrightarrow> fs1 q = (if q \<in> set spec_layout_dirs then Some Dir else None))
         \<and> (\<forall>q. prefix [FOLDS_DIR] q \<longrightarrow> (fs' q = Some Dir \<longleftrightarrow> q \<in> set spec_layout_dirs))
         \<and> (\<forall>q. prefix [FOLDS_DIR] q \<and> q \<notin> set spec_layout_dirs
                  \<and> q \<notin> run_files ref fold_records combined_records {..<N_FOLDS}
                 \<longrightarrow> fs' q = None)
         \<and> (\<forall>q. \<not> prefix [FOLDS_DIR] q \<longrightarrow> fs' q = fs q)
         \<and> (\<forall>p \<in> set (fold_dirs @ class_dirs). makedirs p fs1 = Inr fs1)
         \<and> make_dirs fs1 = Inr fs1
         \<and> map single_name [0..<4] = [''fold0'', ''fold1'', ''fold2'', ''fold3'']
         \<and> map combined_name [0..<4] = [''fold123'', ''fold023'', ''fold013'', ''fold012'']"
proof -
  from m obtain fs0 ref fm fr cr fs1 where
    r: "remove_old fs = Inr fs0"
    and ref: "load_ref env = Inr ref"
    and fl: "fold_lists env (map record_name ref) = Inr (fm, fr, cr)"
    and md: "make_dirs fs0 = Inr fs1"
    and w: "write_folds env ref fr cr [0..<N_FOLDS] fs1 = Inr fs'"
    unfolding main_def by (auto split: sum.splits prod.splits)
  note ro = remove_old_result[OF wf r]
  then have empty: "\<forall>q. prefix [FOLDS_DIR] q \<longrightarrow> fs0 q = None" by blast
  from make_dirs_fresh[OF empty] md have ok: "tree_ok fs1"
    and v: "\<forall>q. fs1 q = (if q \<in> set spec_layout_dirs then Some Dir else fs0 q)"
    by auto
  have a: "\<forall>q. prefix [FOLDS_DIR] q
                 \<longrightarrow> fs1 q = (if q \<in> set spec_layout_dirs then Some Dir else None)"
    using v ro(1) by simp
  have out1: "\<forall>q. \<not> prefix [FOLDS_DIR] q \<longrightarrow> fs1 q = fs q"
    using v ro(2) layout_under_folds by auto
  have set_eq: "set [0..<N_FOLDS] = {..<N_FOLDS}" by auto
  from write_folds_frame[OF w] have
    d: "\<forall>q. fs' q = Some Dir \<longleftrightarrow> fs1 q = Some Dir"
    and f: "\<forall>q. q \<notin> run_files ref fr cr {..<N_FOLDS} \<longrightarrow> fs' q = fs1 q"
    unfolding set_eq by blast+
  have b: "\<forall>q. prefix [FOLDS_DIR] q \<longrightarrow> (fs' q = Some Dir \<longleftrightarrow> q \<in> set spec_layout_dirs)"
    using d a by simp
  have c: "\<forall>q. prefix [FOLDS_DIR] q \<and> q \<notin> set spec_layout_dirs
                  \<and> q \<notin> run_files ref fr cr {..<N_FOLDS}
                 \<longrightarrow> fs' q = None"
    using f a by simp
  have e: "\<forall>q. \<not> prefix [FOLDS_DIR] q \<longrightarrow> fs' q = fs q"
    using f out1 run_files_under_folds by metis
  from v have l: "\<forall>q \<in> set spec_layout_dirs. fs1 q = Some Dir" by simp
  note again = make_dirs_again[OF ok l]
  have names: "map single_name [0..<4] = [''fold0'', ''fold1'', ''fold2'', ''fold3'']"
     "map combined_name [0..<4] = [''fold123'', ''fold023'', ''fold013'', ''fold012'']"
    using dir_names by (simp_all add: singles_def combined_def N_FOLDS_def)
  show ?thesis
    by (intro exI[of _ ref] exI[of _ fm] exI[of _ fr] exI[of _ cr] exI[of _ fs0] exI[of _ fs1]
          conjI ref fl r md w a b c e again names)
qed

theorem main_rebuilds_tree_witness:
  "wf_fs ex_old_fs
   \<and> ex_old_fs [''folds'', ''fold0'', ''stale.npy''] = Some (File (NpyInt 7))
   \<and> (\<exists>fs'. main ex_env ex_old_fs = Inr fs'
        \<and> fs' [''folds'', ''fold0'', ''stale.npy''] = None
        \<and> fs' [''folds'', ''fold123'', ''label''] = Some Dir
        \<and> fs' [''folds'', ''fold2'', ''AF'', ''data''] = Some Dir
        \<and> fs' [''notes.npy''] = Some (File (NpyInt 1))
        \<and> (\<exists>fs0 fs1. remove_old ex_old_fs = Inr fs0 \<and> make_dirs fs0 = Inr fs1
              \<and> (\<forall>p \<in> set (fold_dirs @ class_dirs). makedirs p fs1 = Inr fs1)
              \<and> make_dirs fs1 = Inr fs1
              \<and> fs1 [''folds'', ''fold0'', ''stale.npy''] = None))"
proof -
  obtain fs' where m: "main ex_env ex_old_fs = Inr fs'"
    and stale: "fs' [''folds'', ''fold0'', ''stale.npy''] = None"
    by (rule ex_main_Inr)
  have 0: "ex_old_fs [''folds'', ''fold0'', ''stale.npy''] = Some (File (NpyInt 7))"
    by (simp add: ex_old_fs_def)
  from main_rebuilds_tree[OF ex_old_fs_wf m] show ?thesis
  proof (elim exE conjE)
    fix fs0 fs1
    assume r: "remove_old ex_old_fs = Inr fs0" and md: "make_dirs fs0 = Inr fs1"
      and a: "\<forall>q. prefix [FOLDS_DIR] q
                 \<longrightarrow> fs1 q = (if q \<in> set spec_layout_dirs then Some Dir else None)"
      and b: "\<forall>q. prefix [FOLDS_DIR] q \<longrightarrow> (fs' q = Some Dir \<longleftrightarrow> q \<in> set spec_layout_dirs)"
      and e: "\<forall>q. \<not> prefix [FOLDS_DIR] q \<longrightarrow> fs' q = ex_old_fs q"
      and again: "\<forall>p \<in> set (fold_dirs @ class_dirs). makedirs p fs1 = Inr fs1"
        "make_dirs fs1 = Inr fs1"
    have 1: "fs1 [''folds'', ''fold0'', ''stale.npy''] = None"
      using a[rule_format, of "[''folds'', ''fold0'', ''stale.npy'']"] ex_layout_members(1)
      by (simp add: FOLDS_DIR_def)
    have 2: "fs' [''folds'', ''fold123'', ''label''] = Some Dir"
      using b[rule_format, of "[''folds'', ''fold123'', ''label'']"] ex_layout_members(2)
      by (simp add: FOLDS_DIR_def)
    have 3: "fs' [''folds'', ''fold2'', ''AF'', ''data''] = Some Dir"
      using b[rule_format, of "[''folds'', ''fold2'', ''AF'', ''data'']"] ex_layout_members(3)
      by (simp add: FOLDS_DIR_def)
    have 4: "fs' [''notes.npy''] = Some (File (NpyInt 1))"
      using e[rule_format, of "[''notes.npy'']"]
      by (simp add: FOLDS_DIR_def ex_old_fs_def)
    have 5: "\<exists>fs0 fs1. remove_old ex_old_fs = Inr fs0 \<and> make_dirs fs0 = Inr fs1
              \<and> (\<forall>p \<in> set (fold_dirs @ class_dirs). makedirs p fs1 = Inr fs1)
              \<and> make_dirs fs1 = Inr fs1
              \<and> fs1 [''folds'', ''fold0'', ''stale.npy''] = None"
      by (intro exI[of _ fs0] exI[of _ fs1] conjI r md again 1)
    show ?thesis
      by (intro conjI ex_old_fs_wf 0 exI[of _ fs'] m stale 2 3 4 5)
  qed
qed

section \<open>When a run returns\<close>

lemma np_save_total:
  assumes ok: "dirs_ok fs" and u: "prefix [FOLDS_DIR] p" and np: "p \<notin> set spec_layout_dirs"
      and parent: "butlast p \<in> set spec_layout_dirs"
  shows "np_save p v fs = Inr (fs(p \<mapsto> File v))" and "dirs_ok (fs(p \<mapsto> File v))"
proof -
  from ok u np have a: "fs p \<noteq> Some Dir"
    by (simp add: dirs_ok_def)
  from parent have "prefix [FOLDS_DIR] (butlast p)"
    by (rule layout_under_folds)
  with ok parent have b: "fs (butlast p) = Some Dir"
    by (simp add: dirs_ok_def)
  from a b show "np_save p v fs = Inr (fs(p \<mapsto> File v))"
    by (simp add: np_save_def)
  from ok np show "dirs_ok (fs(p \<mapsto> File v))"
    by (auto simp: dirs_ok_def)
qed

lemma sub_dirs_mem: "''data'' \<in> set sub_dirs" "''label'' \<in> set sub_dirs"
  by (simp_all add: sub_dirs_def)

lemma sub_not_class: "''data'' \<notin> set class_subdirs" "''label'' \<notin> set class_subdirs"
  by (simp_all add: class_subdirs_def)

lemma class_dir_mem: "class_dir lbl = Inr cls \<Longrightarrow> cls \<in> set class_subdirs"
  by (auto simp: class_dir_def class_names_def class_subdirs_def split: if_splits)

lemma layout_fold_sub:
  "i < N_FOLDS \<Longrightarrow> sub \<in> set sub_dirs \<Longrightarrow> [FOLDS_DIR, single_name i, sub] \<in> set spec_layout_dirs"
  "i < N_FOLDS \<Longrightarrow> sub \<in> set sub_dirs \<Longrightarrow> [FOLDS_DIR, combined_name i, sub] \<in> set spec_layout_dirs"
  "i < N_FOLDS \<Longrightarrow> cls \<in> set class_subdirs \<Longrightarrow> sub \<in> set sub_dirs
     \<Longrightarrow> [FOLDS_DIR, single_name i, cls, sub] \<in> set spec_layout_dirs"
  unfolding in_layout_dirs by blast+

lemma layout_no_file:
  "sub \<notin> set class_subdirs \<Longrightarrow> [FOLDS_DIR, fd, sub, out] \<notin> set spec_layout_dirs"
  "[FOLDS_DIR, fd, cls, sub, out] \<notin> set spec_layout_dirs"
  unfolding in_layout_dirs by auto

lemma save_test_record_total:
  assumes ok: "dirs_ok fs" and i: "i < N_FOLDS"
      and p: "load_and_process env rec = Inr proc"
      and l: "lookup_label ref rec = Inr lbl" and c: "class_dir lbl = Inr cls"
  shows "\<exists>fs1. save_test_record env ref (single_name i) idx rec fs = Inr fs1 \<and> dirs_ok fs1"
proof -
  let ?out = "str_nat idx @ ''.npy''"
  let ?sf = "single_name i"
  note cm = class_dir_mem[OF c]
  let ?fsa = "fs([FOLDS_DIR, ?sf, ''data'', ?out] \<mapsto> File (NpyArray proc))"
  have a: "np_save [FOLDS_DIR, ?sf, ''data'', ?out] (NpyArray proc) fs = Inr ?fsa" "dirs_ok ?fsa"
    by (rule np_save_total[OF ok]; simp add: layout_no_file sub_not_class layout_fold_sub i sub_dirs_mem)+
  let ?fsb = "?fsa([FOLDS_DIR, ?sf, ''label'', ?out] \<mapsto> File (NpyInt lbl))"
  have b: "np_save [FOLDS_DIR, ?sf, ''label'', ?out] (NpyInt lbl) ?fsa = Inr ?fsb" "dirs_ok ?fsb"
    by (rule np_save_total[OF a(2)]; simp add: layout_no_file sub_not_class layout_fold_sub i sub_dirs_mem)+
  let ?fsc = "?fsb([FOLDS_DIR, ?sf, cls, ''data'', ?out] \<mapsto> File (NpyArray proc))"
  have c3: "np_save [FOLDS_DIR, ?sf, cls, ''data'', ?out] (NpyArray proc) ?fsb = Inr ?fsc" "dirs_ok ?fsc"
    by (rule np_save_total[OF b(2)]; simp add: layout_no_file layout_fold_sub i sub_dirs_mem cm)+
  let ?fsd = "?fsc([FOLDS_DIR, ?sf, cls, ''label'', ?out] \<mapsto> File (NpyInt lbl))"
  have d: "np_save [FOLDS_DIR, ?sf, cls, ''label'', ?out] (NpyInt lbl) ?fsc = Inr ?fsd" "dirs_ok ?fsd"
    by (rule np_save_total[OF c3(2)]; simp add: layout_no_file layout_fold_sub i sub_dirs_mem cm)+
  have "save_test_record env ref ?sf idx rec fs = Inr ?fsd"
    unfolding save_test_record_def Let_def
    by (simp only: p l c a(1) b(1) c3(1) d(1) sum.case)
  with d(2) show ?thesis by blast
qed

lemma save_train_record_total:
  assumes ok: "dirs_ok fs" and i: "i < N_FOLDS"
      and p: "load_and_process env rec = Inr proc"
      and l: "lookup_label ref rec = Inr lbl"
  shows "\<exists>fs1. save_train_record env ref (combined_name i) idx rec fs = Inr fs1 \<and> dirs_ok fs1"
proof -
  let ?out = "str_nat idx @ ''.npy''"
  let ?cf = "combined_name i"
  let ?fsa = "fs([FOLDS_DIR, ?cf, ''data'', ?out] \<mapsto> File (NpyArray proc))"
  have a: "np_save [FOLDS_DIR, ?cf, ''data'', ?out] (NpyArray proc) fs = Inr ?fsa" "dirs_ok ?fsa"
    by (rule np_save_total[OF ok]; simp add: layout_no_file sub_not_class layout_fold_sub i sub_dirs_mem)+
  let ?fsb = "?fsa([FOLDS_DIR, ?cf, ''label'', ?out] \<mapsto> File (NpyInt lbl))"
  have b: "np_save [FOLDS_DIR, ?cf, ''label'', ?out] (NpyInt lbl) ?fsa = Inr ?fsb" "dirs_ok ?fsb"
    by (rule np_save_total[OF a(2)]; simp add: layout_no_file sub_not_class layout_fold_sub i sub_dirs_mem)+
  have "save_train_record env ref ?cf idx rec fs = Inr ?fsb"
    unfolding save_train_record_def Let_def
    by (simp only: p l a(1) b(1) sum.case)
  with b(2) show ?thesis by blast
qed


lemma count_1_if_distinct: "distinct xs \<Longrightarrow> x \<in> set xs \<Longrightarrow> count_list xs x = 1"
  by (induction xs) auto

lemma write_test_total:
  "dirs_ok fs \<Longrightarrow> i < N_FOLDS
     \<Longrightarrow> \<forall>r \<in> set recs. (\<exists>proc. load_and_process env r = Inr proc)
                          \<and> (\<exists>lbl cls. lookup_label ref r = Inr lbl \<and> class_dir lbl = Inr cls)
     \<Longrightarrow> \<exists>fs'. write_test env ref (single_name i) idx recs fs = Inr fs' \<and> dirs_ok fs'"
proof (induction recs arbitrary: idx fs)
  case Nil
  then show ?case by simp
next
  case (Cons rec rest)
  from Cons.prems(3) obtain proc lbl cls where
    "load_and_process env rec = Inr proc" "lookup_label ref rec = Inr lbl"
    "class_dir lbl = Inr cls"
    by auto
  from save_test_record_total[OF Cons.prems(1,2) this] obtain fs1 where
    s: "save_test_record env ref (single_name i) idx rec fs = Inr fs1" and ok1: "dirs_ok fs1"
    by blast
  from Cons.prems(3) have
    "\<forall>r \<in> set rest. (\<exists>proc. load_and_process env r = Inr proc)
                          \<and> (\<exists>lbl cls. lookup_label ref r = Inr lbl \<and> class_dir lbl = Inr cls)"
    by simp
  from Cons.IH[OF ok1 Cons.prems(2) this, of "Suc idx"] s show ?case
    by simp
qed

lemma write_train_total:
  "dirs_ok fs \<Longrightarrow> i < N_FOLDS
     \<Longrightarrow> \<forall>r \<in> set recs. (\<exists>proc. load_and_process env r = Inr proc)
                          \<and> (\<exists>lbl. lookup_label ref r = Inr lbl)
     \<Longrightarrow> \<exists>fs'. write_train env ref (combined_name i) idx recs fs = Inr fs' \<and> dirs_ok fs'"
proof (induction recs arbitrary: idx fs)
  case Nil
  then show ?case by simp
next
  case (Cons rec rest)
  from Cons.prems(3) obtain proc lbl where
    "load_and_process env rec = Inr proc" "lookup_label ref rec = Inr lbl"
    by auto
  from save_train_record_total[OF Cons.prems(1,2) this] obtain fs1 where
    s: "save_train_record env ref (combined_name i) idx rec fs = Inr fs1" and ok1: "dirs_ok fs1"
    by blast
  from Cons.prems(3) have
    "\<forall>r \<in> set rest. (\<exists>proc. load_and_process env r = Inr proc)
                          \<and> (\<exists>lbl. lookup_label ref r = Inr lbl)"
    by simp
  from Cons.IH[OF ok1 Cons.prems(2) this, of "Suc idx"] s show ?case
    by simp
qed

lemma write_folds_total:
  assumes recs: "\<forall>r \<in> set recs. (\<exists>proc. load_and_process env r = Inr proc)
                          \<and> (\<exists>lbl cls. lookup_label ref r = Inr lbl \<and> class_dir lbl = Inr cls)"
      and fr: "\<forall>i < N_FOLDS. \<exists>l. fold_records i = Some l \<and> set l \<subseteq> set recs"
      and cr: "\<forall>i < N_FOLDS. \<exists>l. combined_records i = Some l \<and> set l \<subseteq> set recs"
  shows "dirs_ok fs \<Longrightarrow> \<forall>i \<in> set is. i < N_FOLDS
     \<Longrightarrow> \<exists>fs'. write_folds env ref fold_records combined_records is fs = Inr fs' \<and> dirs_ok fs'"
proof (induction "is" arbitrary: fs)
  case Nil
  then show ?case by simp
next
  case (Cons i "is")
  from Cons.prems have i: "i < N_FOLDS" and rest: "\<forall>j \<in> set is. j < N_FOLDS" by simp_all
  from fr i obtain test_recs where t: "fold_records i = Some test_recs" "set test_recs \<subseteq> set recs"
    by blast
  from cr i obtain train_recs where r: "combined_records i = Some train_recs" "set train_recs \<subseteq> set recs"
    by blast
  from recs t(2) have
    "\<forall>r \<in> set test_recs. (\<exists>proc. load_and_process env r = Inr proc)
                          \<and> (\<exists>lbl cls. lookup_label ref r = Inr lbl \<and> class_dir lbl = Inr cls)"
    by blast
  from write_test_total[OF Cons.prems(1) i this, of 0] obtain fs1 where
    wt: "write_test env ref (single_name i) 0 test_recs fs = Inr fs1" and ok1: "dirs_ok fs1"
    by blast
  from recs r(2) have
    "\<forall>r \<in> set train_recs. (\<exists>proc. load_and_process env r = Inr proc)
                          \<and> (\<exists>lbl. lookup_label ref r = Inr lbl)"
    by blast
  from write_train_total[OF ok1 i this, of 0] obtain fs2 where
    wr: "write_train env ref (combined_name i) 0 train_recs fs1 = Inr fs2" and ok2: "dirs_ok fs2"
    by blast
  from Cons.IH[OF ok2 rest] t(1) wt r(1) wr show ?case
    by simp
qed

text \<open>
  A run of \<open>main\<close> returns when the file system is well formed and \<open>folds\<close> is not a
  regular file, the table can be read, the splitter keeps its contract, the identifiers
  of the filtered table are pairwise different, and every record can be loaded and
  processed.
\<close>

lemma main_returns:
  assumes wf: "wf_fs fs" and nofile: "\<forall>c. fs [FOLDS_DIR] \<noteq> Some (File c)"
      and ref: "load_ref env = Inr ref"
      and kf: "kfold_split env N_FOLDS SEED (length ref) = Inr splits"
      and len: "length splits = N_FOLDS"
      and range: "\<forall>test_idx \<in> snd ` set splits. \<forall>j \<in> set test_idx. j < length ref"
      and cover: "\<forall>j < length ref. \<exists>test_idx \<in> snd ` set splits. j \<in> set test_idx"
      and uniq: "distinct (map record_name ref)"
      and proc: "\<forall>row \<in> set ref. \<exists>proc. load_and_process env (record_name row) = Inr proc"
  shows "\<exists>fs'. main env fs = Inr fs'"
proof -
  let ?recs = "map record_name ref"
  from remove_old_total[of fs] nofile obtain fs0 where r: "remove_old fs = Inr fs0" by blast
  from remove_old_result(1)[OF wf r] have empty: "\<forall>q. prefix [FOLDS_DIR] q \<longrightarrow> fs0 q = None"
    by blast
  from make_dirs_fresh[OF empty] obtain fs1 where
    m: "make_dirs fs0 = Inr fs1"
    and v: "\<forall>q. fs1 q = (if q \<in> set spec_layout_dirs then Some Dir else fs0 q)"
    by blast
  from v empty have ok: "dirs_ok fs1"
    by (simp add: dirs_ok_def)
  have kf': "kfold_split env N_FOLDS SEED (length ?recs) = Inr splits"
    and range': "\<forall>test_idx \<in> snd ` set splits. \<forall>j \<in> set test_idx. j < length ?recs"
    and cover': "\<forall>j < length ?recs. \<exists>test_idx \<in> snd ` set splits. j \<in> set test_idx"
    using kf range cover by simp_all
  from fold_lists_total[OF kf' len range' cover'] obtain fm fr cr where
    fl: "fold_lists env ?recs = Inr (fm, fr, cr)" by blast
  have frs: "\<forall>i < N_FOLDS. \<exists>l. fr i = Some l \<and> set l \<subseteq> set ?recs"
    using fold_lists_result(2)[OF fl] by auto
  have crs: "\<forall>i < N_FOLDS. \<exists>l. cr i = Some l \<and> set l \<subseteq> set ?recs"
    using fold_lists_result(3)[OF fl] by auto
  have recs: "\<forall>r \<in> set ?recs. (\<exists>proc. load_and_process env r = Inr proc)
                          \<and> (\<exists>lbl cls. lookup_label ref r = Inr lbl \<and> class_dir lbl = Inr cls)"
  proof
    fix rec assume rec: "rec \<in> set ?recs"
    with proc have p: "\<exists>proc. load_and_process env rec = Inr proc" by auto
    from uniq rec have "count_list ?recs rec = 1"
      by (rule count_1_if_distinct)
    with lookup_label_count[OF ref, of rec] obtain lbl where l: "lookup_label ref rec = Inr lbl"
      by blast
    from lookup_label_row[OF l] obtain row where
      row: "row \<in> set ref" "int_label row = Some lbl" by blast
    from load_ref_row[OF ref row(1)] row(2) have "lbl = 0 \<or> lbl = 1 \<or> lbl = 2" by auto
    then have "\<exists>cls. class_dir lbl = Inr cls"
      by (auto simp: class_dir_def class_names_def)
    with p l show "(\<exists>proc. load_and_process env rec = Inr proc)
                          \<and> (\<exists>lbl cls. lookup_label ref rec = Inr lbl \<and> class_dir lbl = Inr cls)"
      by blast
  qed
  have "\<forall>i \<in> set [0..<N_FOLDS]. i < N_FOLDS" by simp
  from write_folds_total[OF recs frs crs ok this] obtain fs' where
    "write_folds env ref fr cr [0..<N_FOLDS] fs1 = Inr fs'" by blast
  with r ref fl m show ?thesis
    by (simp add: main_def)
qed

end
